theory Spec2Isabelle
  imports Main "HOL-Library.Sublist"
begin

section \<open>Strings as Python uses them\<close>

text \<open>
  Python's \<open>str.lower()\<close> on the ASCII letters: each of \<open>A\<close>..\<open>Z\<close> goes to its lower-case
  letter, every other character stays. Strings are lists of 8-bit characters here, so the
  case mapping of characters beyond ASCII is not represented.
\<close>

definition ascii_uppercase :: string where
  "ascii_uppercase = ''ABCDEFGHIJKLMNOPQRSTUVWXYZ''"

definition ascii_lowercase :: string where
  "ascii_lowercase = ''abcdefghijklmnopqrstuvwxyz''"

definition lower_char :: "char \<Rightarrow> char" where
  "lower_char c =
     (case map_of (zip ascii_uppercase ascii_lowercase) c of
        Some d \<Rightarrow> d
      | None \<Rightarrow> c)"

definition lower :: "string \<Rightarrow> string" where
  "lower s = map lower_char s"

text \<open>\<open>sub in s\<close> of Python: \<open>sub\<close> occurs in \<open>s\<close> as a contiguous run.\<close>

fun str_contains :: "string \<Rightarrow> string \<Rightarrow> bool" where
  "str_contains sub [] = (sub = [])"
| "str_contains sub (c # cs) = (prefix sub (c # cs) \<or> str_contains sub cs)"


section \<open>merge.py: the merge driver\<close>

text \<open>The dataclass \<open>MergeResult\<close>; \<open>conflict\<close> defaults to False and \<open>error\<close> to
  the empty string.\<close>

record MergeResult =
  mr_branch :: string
  mr_success :: bool
  mr_conflict :: bool
  mr_error :: string

text \<open>
  \<open>_run_git\<close> runs a child process: what it returns, and what it does to the repository,
  is not decided by this program. It is a parameter \<open>run_git\<close>: from the state of the
  repository and the argument list to the triple (return code, stdout, stderr) and the
  next state of the repository.
\<close>

type_synonym git_result = "int \<times> string \<times> string"

type_synonym 'g git = "'g \<Rightarrow> string list \<Rightarrow> git_result \<times> 'g"

definition merge_branch :: "'g git \<Rightarrow> 'g \<Rightarrow> string \<Rightarrow> MergeResult \<times> 'g" where
  "merge_branch run_git g branch =
     (case run_git g [''merge'', ''--no-ff'', ''-m'', ''Merge parallel branch: '' @ branch, branch] of
        ((rc, stdout, stderr), g1) \<Rightarrow>
          if rc = 0 then
            (\<lparr>mr_branch = branch, mr_success = True, mr_conflict = False, mr_error = ''''\<rparr>, g1)
          else if str_contains ''conflict'' (lower stderr) \<or> str_contains ''conflict'' (lower stdout) then
            (\<lparr>mr_branch = branch, mr_success = False, mr_conflict = True, mr_error = ''''\<rparr>,
             snd (run_git g1 [''merge'', ''--abort'']))
          else
            (\<lparr>mr_branch = branch, mr_success = False, mr_conflict = False, mr_error = stderr\<rparr>,
             snd (run_git g1 [''merge'', ''--abort''])))"

definition delete_branch :: "'g git \<Rightarrow> 'g \<Rightarrow> string \<Rightarrow> 'g" where
  "delete_branch run_git g branch = snd (run_git g [''branch'', ''-d'', branch])"

text \<open>The stderr of the \<open>git merge\<close> call that \<open>merge_branch\<close> makes first.\<close>

definition merge_stderr :: "'g git \<Rightarrow> 'g \<Rightarrow> string \<Rightarrow> string" where
  "merge_stderr run_git g branch =
     snd (snd (fst (run_git g
       [''merge'', ''--no-ff'', ''-m'', ''Merge parallel branch: '' @ branch, branch])))"

text \<open>A repository whose every git command exits with code 1 and prints nothing.\<close>

definition silent_failing_git :: "unit git" where
  "silent_failing_git g args = ((1, '''', ''''), g)"


section \<open>scheduler.py: tiers and plans\<close>

record ExecutionTier =
  tier :: int
  issue_ids :: "string list"
  description :: string
  sequential :: bool

definition tier_size :: "ExecutionTier \<Rightarrow> int" where
  "tier_size t = int (length (issue_ids t))"

record ParallelPlan =
  tiers :: "ExecutionTier list"
  max_parallelism :: int
  created_at :: string
  total_issues :: int

text \<open>The loop of \<open>get_ready_issues\<close> over \<open>plan.tiers\<close>.\<close>

fun get_ready_loop :: "ExecutionTier list \<Rightarrow> string set \<Rightarrow> string list \<times> ExecutionTier option" where
  "get_ready_loop [] completed = ([], None)"
| "get_ready_loop (t # ts) completed =
     (let remaining = filter (\<lambda>iid. iid \<notin> completed) (issue_ids t)
      in if remaining = [] then get_ready_loop ts completed
         else (remaining, Some t))"

definition get_ready_issues :: "ParallelPlan \<Rightarrow> string set \<Rightarrow> string list \<times> ExecutionTier option" where
  "get_ready_issues plan completed = get_ready_loop (tiers plan) completed"


text \<open>The plan of six issues over tiers 1, 2, 3 and 7.\<close>

definition tier1_S1 :: ExecutionTier where
  "tier1_S1 = \<lparr>tier = 1, issue_ids = [''T-1'', ''T-2''],
     description = ''setup (project foundation)'', sequential = True\<rparr>"

definition tier2_S1 :: ExecutionTier where
  "tier2_S1 = \<lparr>tier = 2, issue_ids = [''T-3''],
     description = ''backend (API and data layer)'', sequential = False\<rparr>"

definition tier3_S1 :: ExecutionTier where
  "tier3_S1 = \<lparr>tier = 3, issue_ids = [''T-4'', ''T-5''],
     description = ''frontend + a2ui-catalog (UI components)'', sequential = False\<rparr>"

definition tier7_S1 :: ExecutionTier where
  "tier7_S1 = \<lparr>tier = 7, issue_ids = [''T-6''],
     description = ''integration (cross-cutting)'', sequential = True\<rparr>"

definition plan_S1 :: ParallelPlan where
  "plan_S1 = \<lparr>tiers = [tier1_S1, tier2_S1, tier3_S1, tier7_S1], max_parallelism = 2,
     created_at = ''2026-01-01T00:00:00+00:00'', total_issues = 6\<rparr>"

text \<open>
  A plan whose list of tiers is not in index order: the constructor of \<open>ParallelPlan\<close>
  and \<open>from_dict\<close> keep the list as it is given, only \<open>build_plan\<close> sorts.
\<close>

definition plan_unsorted :: ParallelPlan where
  "plan_unsorted = \<lparr>tiers = [tier7_S1, tier1_S1], max_parallelism = 2,
     created_at = ''2026-01-01T00:00:00+00:00'', total_issues = 3\<rparr>"


subsection \<open>Building the plan\<close>

text \<open>The exceptions of Python that the modelled code can raise.\<close>

datatype py_error = KeyError string | ValueError string | TypeError string | OSError string

definition CATEGORY_TIERS :: "(string \<times> int) list" where
  "CATEGORY_TIERS =
     [(''setup'', 1), (''backend'', 2), (''frontend'', 3), (''a2ui-catalog'', 3),
      (''feature'', 4), (''styling'', 5), (''testing'', 6), (''integration'', 7)]"

definition SEQUENTIAL_TIERS :: "int set" where
  "SEQUENTIAL_TIERS = {1, 7}"

definition TIER_DESCRIPTIONS :: "(int \<times> string) list" where
  "TIER_DESCRIPTIONS =
     [(1, ''setup (project foundation)''),
      (2, ''backend (API and data layer)''),
      (3, ''frontend + a2ui-catalog (UI components)''),
      (4, ''feature (integration features)''),
      (5, ''styling (visual polish)''),
      (6, ''testing (validation)''),
      (7, ''integration (cross-cutting)'')]"

definition DEFAULT_TIER :: int where
  "DEFAULT_TIER = 4"

text \<open>\<open>str(n)\<close> of a Python int, for the f-string \<open>f"tier {tier_num}"\<close>.\<close>

fun str_nat :: "nat \<Rightarrow> string" where
  "str_nat n =
     (if n < 10 then [''0123456789'' ! n]
      else str_nat (n div 10) @ [''0123456789'' ! (n mod 10)])"

definition str_int :: "int \<Rightarrow> string" where
  "str_int n = (if n < 0 then CHR ''-'' # str_nat (nat (- n)) else str_nat (nat n))"

text \<open>An issue is a dict from field names to strings.\<close>

type_synonym issue = "string \<rightharpoonup> string"

text \<open>\<open>issue.get("category", "")\<close>.\<close>

definition issue_category :: "issue \<Rightarrow> string" where
  "issue_category issue = (case issue ''category'' of None \<Rightarrow> '''' | Some c \<Rightarrow> c)"

text \<open>\<open>CATEGORY_TIERS.get(category, DEFAULT_TIER)\<close> at the lower-cased category.\<close>

definition issue_tier :: "issue \<Rightarrow> int" where
  "issue_tier issue =
     (let category = lower (issue_category issue)
      in case map_of CATEGORY_TIERS category of None \<Rightarrow> DEFAULT_TIER | Some n \<Rightarrow> n)"

text \<open>
  \<open>tier_groups\<close> is a dict from tier numbers to lists of identifiers, kept as the list of
  its items in insertion order. \<open>d.setdefault(k, []).append(v)\<close>:
\<close>

fun setdefault_append :: "'k \<Rightarrow> 'v \<Rightarrow> ('k \<times> 'v list) list \<Rightarrow> ('k \<times> 'v list) list" where
  "setdefault_append k v [] = [(k, [v])]"
| "setdefault_append k v ((k', vs) # rest) =
     (if k = k' then (k', vs @ [v]) # rest else (k', vs) # setdefault_append k v rest)"

text \<open>The first loop of \<open>build_plan\<close>; \<open>issue["id"]\<close> raises KeyError on a dict without
  that key.\<close>

fun group_issues :: "issue list \<Rightarrow> (int \<times> string list) list \<Rightarrow> py_error + (int \<times> string list) list" where
  "group_issues [] tier_groups = Inr tier_groups"
| "group_issues (issue # rest) tier_groups =
     (let tier_num = issue_tier issue
      in case issue ''id'' of
           None \<Rightarrow> Inl (KeyError ''id'')
         | Some iid \<Rightarrow> group_issues rest (setdefault_append tier_num iid tier_groups))"

definition tier_description :: "int \<Rightarrow> string" where
  "tier_description tier_num =
     (case map_of TIER_DESCRIPTIONS tier_num of
        Some d \<Rightarrow> d
      | None \<Rightarrow> ''tier '' @ str_int tier_num)"

text \<open>The second loop of \<open>build_plan\<close>, over the sorted keys; \<open>tier_groups[tier_num]\<close>
  raises KeyError on a missing key.\<close>

fun build_tiers :: "int list \<Rightarrow> (int \<times> string list) list \<Rightarrow> py_error + ExecutionTier list" where
  "build_tiers [] tier_groups = Inr []"
| "build_tiers (tier_num # rest) tier_groups =
     (case map_of tier_groups tier_num of
        None \<Rightarrow> Inl (KeyError (str_int tier_num))
      | Some ids \<Rightarrow>
          (case build_tiers rest tier_groups of
             Inl e \<Rightarrow> Inl e
           | Inr ts \<Rightarrow>
               Inr (\<lparr>tier = tier_num, issue_ids = ids,
                      description = tier_description tier_num,
                      sequential = (tier_num \<in> SEQUENTIAL_TIERS)\<rparr> # ts)))"

text \<open>
  The constructor of \<open>ParallelPlan\<close>: \<open>__post_init__\<close> sets \<open>total_issues\<close> to the sum of
  the tiers' sizes, whatever was passed. \<open>created_at\<close> defaults to the current time, which
  the caller passes here.
\<close>

definition ParallelPlan_init :: "ExecutionTier list \<Rightarrow> int \<Rightarrow> string \<Rightarrow> ParallelPlan" where
  "ParallelPlan_init ts mp ca =
     \<lparr>tiers = ts, max_parallelism = mp, created_at = ca,
      total_issues = sum_list (map tier_size ts)\<rparr>"

definition build_plan :: "issue list \<Rightarrow> int \<Rightarrow> string \<Rightarrow> py_error + ParallelPlan" where
  "build_plan issues max_par now =
     (case group_issues issues [] of
        Inl e \<Rightarrow> Inl e
      | Inr tier_groups \<Rightarrow>
          (case build_tiers (sort (map fst tier_groups)) tier_groups of
             Inl e \<Rightarrow> Inl e
           | Inr ts \<Rightarrow> Inr (ParallelPlan_init ts max_par now)))"

text \<open>The identifiers of the issues of a list that fall into tier \<open>n\<close>, in the list's order.\<close>

definition ids_in_tier :: "int \<Rightarrow> issue list \<Rightarrow> string list" where
  "ids_in_tier n issues =
     List.map_filter (\<lambda>i. if issue_tier i = n then i ''id'' else None) issues"

text \<open>Two issues that share the identifier \<open>T-1\<close> and differ in category.\<close>

definition shared_id_issues :: "issue list" where
  "shared_id_issues =
     [[''id'' \<mapsto> ''T-1'', ''category'' \<mapsto> ''setup''],
      [''id'' \<mapsto> ''T-1'', ''category'' \<mapsto> ''backend'']]"

text \<open>The six issues of the tier-sequencing scenario.\<close>

definition issues_S1 :: "issue list" where
  "issues_S1 =
     [[''id'' \<mapsto> ''T-1'', ''category'' \<mapsto> ''setup''],
      [''id'' \<mapsto> ''T-2'', ''category'' \<mapsto> ''setup''],
      [''id'' \<mapsto> ''T-3'', ''category'' \<mapsto> ''backend''],
      [''id'' \<mapsto> ''T-4'', ''category'' \<mapsto> ''frontend''],
      [''id'' \<mapsto> ''T-5'', ''category'' \<mapsto> ''a2ui-catalog''],
      [''id'' \<mapsto> ''T-6'', ''category'' \<mapsto> ''integration'']]"


subsection \<open>Plan persistence\<close>

text \<open>
  The values that \<open>json.dump\<close> writes and \<open>json.load\<close> reads: a dict is the list of its
  items in insertion order. A file holds the value that was dumped into it; the text
  encoding of JSON is not modelled.
\<close>

datatype json = JNull | JBool bool | JInt int | JStr string | JList "json list"
  | JObj "(string \<times> json) list"

text \<open>Sequencing of steps that may raise.\<close>

definition then_do :: "py_error + 'a \<Rightarrow> ('a \<Rightarrow> py_error + 'b) \<Rightarrow> py_error + 'b" where
  "then_do r f = (case r of Inl e \<Rightarrow> Inl e | Inr v \<Rightarrow> f v)"

fun map_err :: "('a \<Rightarrow> py_error + 'b) \<Rightarrow> 'a list \<Rightarrow> py_error + 'b list" where
  "map_err f [] = Inr []"
| "map_err f (x # xs) = then_do (f x) (\<lambda>y. then_do (map_err f xs) (\<lambda>ys. Inr (y # ys)))"

text \<open>\<open>d[k]\<close> raises KeyError on a missing key.\<close>

definition getitem :: "(string \<times> json) list \<Rightarrow> string \<Rightarrow> py_error + json" where
  "getitem d k = (case map_of d k of None \<Rightarrow> Inl (KeyError k) | Some v \<Rightarrow> Inr v)"

text \<open>
  Python stores whatever value the document holds; the typed records here hold an int, a
  string, a bool or a list, so a value of another shape is a TypeError of the model.
\<close>

fun as_int :: "json \<Rightarrow> py_error + int" where
  "as_int (JInt n) = Inr n"
| "as_int _ = Inl (TypeError ''int'')"

fun as_str :: "json \<Rightarrow> py_error + string" where
  "as_str (JStr s) = Inr s"
| "as_str _ = Inl (TypeError ''str'')"

fun as_bool :: "json \<Rightarrow> py_error + bool" where
  "as_bool (JBool b) = Inr b"
| "as_bool _ = Inl (TypeError ''bool'')"

fun as_list :: "json \<Rightarrow> py_error + json list" where
  "as_list (JList xs) = Inr xs"
| "as_list _ = Inl (TypeError ''list'')"

fun as_dict :: "json \<Rightarrow> py_error + (string \<times> json) list" where
  "as_dict (JObj d) = Inr d"
| "as_dict _ = Inl (TypeError ''dict'')"

definition tier_to_dict :: "ExecutionTier \<Rightarrow> json" where
  "tier_to_dict t =
     JObj [(''tier'', JInt (tier t)),
           (''description'', JStr (description t)),
           (''sequential'', JBool (sequential t)),
           (''issue_ids'', JList (map JStr (issue_ids t)))]"

definition to_dict :: "ParallelPlan \<Rightarrow> (string \<times> json) list" where
  "to_dict p =
     [(''created_at'', JStr (created_at p)),
      (''max_parallelism'', JInt (max_parallelism p)),
      (''total_issues'', JInt (total_issues p)),
      (''tiers'', JList (map tier_to_dict (tiers p)))]"

text \<open>One element of the list comprehension of \<open>from_dict\<close>; \<open>t.get("sequential", False)\<close>
  has a default, the other three keys are required.\<close>

definition tier_from_dict :: "json \<Rightarrow> py_error + ExecutionTier" where
  "tier_from_dict j =
     then_do (as_dict j) (\<lambda>t.
     then_do (then_do (getitem t ''tier'') as_int) (\<lambda>n.
     then_do (then_do (then_do (getitem t ''issue_ids'') as_list) (map_err as_str)) (\<lambda>ids.
     then_do (then_do (getitem t ''description'') as_str) (\<lambda>d.
     then_do (case map_of t ''sequential'' of None \<Rightarrow> Inr False | Some v \<Rightarrow> as_bool v) (\<lambda>s.
     Inr \<lparr>tier = n, issue_ids = ids, description = d, sequential = s\<rparr>)))))"

definition from_dict :: "(string \<times> json) list \<Rightarrow> py_error + ParallelPlan" where
  "from_dict data =
     then_do (then_do (then_do (getitem data ''tiers'') as_list) (map_err tier_from_dict)) (\<lambda>ts.
     then_do (then_do (getitem data ''max_parallelism'') as_int) (\<lambda>mp.
     then_do (case map_of data ''created_at'' of None \<Rightarrow> Inr '''' | Some v \<Rightarrow> as_str v) (\<lambda>ca.
     Inr (ParallelPlan_init ts mp ca))))"

text \<open>The files of JSON documents, by path.\<close>

type_synonym json_files = "string \<rightharpoonup> json"

definition plan_path :: "string \<Rightarrow> string" where
  "plan_path project_dir = project_dir @ ''/.parallel_plan.json''"

definition save_plan :: "ParallelPlan \<Rightarrow> string \<Rightarrow> json_files \<Rightarrow> string \<times> json_files" where
  "save_plan plan project_dir fs =
     (plan_path project_dir, fs(plan_path project_dir \<mapsto> JObj (to_dict plan)))"

definition load_plan :: "string \<Rightarrow> json_files \<Rightarrow> py_error + ParallelPlan option" where
  "load_plan project_dir fs =
     (case fs (plan_path project_dir) of
        None \<Rightarrow> Inr None
      | Some data \<Rightarrow> then_do (then_do (as_dict data) from_dict) (\<lambda>p. Inr (Some p)))"


section \<open>parallel.py: waves of workers\<close>

text \<open>The numbers of \<open>range(i, n, s)\<close> for a positive step \<open>s\<close>.\<close>

function range_from :: "nat \<Rightarrow> nat \<Rightarrow> nat \<Rightarrow> nat list" where
  "range_from i n s = (if s = 0 \<or> n \<le> i then [] else i # range_from (i + s) n s)"
  by pat_completeness auto
termination
  by (relation "measure (\<lambda>(i, n, s). n - i)") auto

declare range_from.simps [simp del]

text \<open>
  \<open>range(0, len(tier_issues), max_workers)\<close>: a step of zero raises ValueError, a negative
  step gives the empty range.
\<close>

definition wave_starts :: "nat \<Rightarrow> int \<Rightarrow> py_error + nat list" where
  "wave_starts n max_workers =
     (if max_workers = 0 then Inl (ValueError ''range() arg 3 must not be zero'')
      else if max_workers < 0 then Inr []
      else Inr (range_from 0 n (nat max_workers)))"

text \<open>The waves of \<open>_run_tier_parallel\<close>, each with its \<open>wave_start\<close>:
  \<open>wave = tier_issues[wave_start:wave_start + max_workers]\<close>.\<close>

definition tier_waves :: "'a list \<Rightarrow> int \<Rightarrow> py_error + (nat \<times> 'a list) list" where
  "tier_waves tier_issues max_workers =
     (case wave_starts (length tier_issues) max_workers of
        Inl e \<Rightarrow> Inl e
      | Inr starts \<Rightarrow>
          Inr (map (\<lambda>wave_start.
                 (wave_start, take (nat max_workers) (drop wave_start tier_issues))) starts))"

text \<open>\<open>worker_index = wave_start + i\<close> for \<open>i, issue in enumerate(wave)\<close>.\<close>

definition wave_workers :: "nat \<times> 'a list \<Rightarrow> (nat \<times> 'a) list" where
  "wave_workers w =
     map (\<lambda>(i, issue). (fst w + i, issue)) (enumerate 0 (snd w))"

text \<open>
  The workers a wave spawns: an issue whose worktree cannot be created gets an error result
  and no worker. Whether \<open>create_worktree\<close> succeeds is a parameter.
\<close>

definition spawn_tasks :: "(nat \<Rightarrow> 'a \<Rightarrow> bool) \<Rightarrow> nat \<times> 'a list \<Rightarrow> (nat \<times> 'a) list" where
  "spawn_tasks create_ok w = filter (\<lambda>(worker_index, issue). create_ok worker_index issue) (wave_workers w)"

text \<open>A tier of five issues.\<close>

definition five_issues :: "string list" where
  "five_issues = [''T-1'', ''T-2'', ''T-3'', ''T-4'', ''T-5'']"


section \<open>queue_runner.py: the job queue\<close>

datatype JobStatus = Pending | Running | Completed | Failed | Interrupted

text \<open>The pydantic model \<open>QueueJob\<close>; \<open>duration_seconds\<close> is kept in tenths of a second
  (the code rounds to one decimal).\<close>

record QueueJob =
  job_id :: string
  job_spec_path :: string
  job_model :: string
  job_max_iterations :: int
  job_parallel :: bool
  job_max_workers :: int
  job_status :: JobStatus
  job_project_dir :: "string option"
  job_exit_code :: "int option"
  job_error :: "string option"
  job_created_at :: string
  job_started_at :: "string option"
  job_completed_at :: "string option"
  job_duration_seconds :: "int option"

record QueueState =
  qs_version :: int
  qs_jobs :: "QueueJob list"

text \<open>
  The files of the harness directory, by path, each with its bytes; paths are taken as
  resolved, so two different paths are two different files. The queue file is kept apart:
  it holds the state that \<open>save_queue\<close> dumped.
\<close>

type_synonym files = "string \<rightharpoonup> string"

record world =
  w_files :: files
  w_queue_file :: "QueueState option"

text \<open>How \<open>subprocess.run\<close> ends: the child exits with a return code, or the call raises an
  exception, or the user interrupts it.\<close>

datatype run_outcome = Exited int | Raised string | KeyboardInterrupt

text \<open>The operations of \<open>_run_job\<close> on the files: \<open>shutil.copy2(src, dst)\<close>,
  \<open>shutil.move(src, dst)\<close> and \<open>Path(p).unlink(missing_ok=True)\<close>.\<close>

datatype file_op = Copy2 string string | Move string string | Unlink string

text \<open>
  What the program does not decide: the directory of the script, the interpreter, the
  child process (its outcome and what it leaves in the files), the readings of the clock,
  and whether the operating system refuses an operation on the files for a reason the
  modelled files do not show (a missing directory, missing permissions, a full disk):
  \<open>os_failure\<close> gives the text of the OSError and the files the failed operation leaves,
  or None when the operation is not refused.
\<close>

record runner_env =
  HARNESS_DIR :: string
  sys_executable :: string
  subprocess_run :: "string list \<Rightarrow> files \<Rightarrow> run_outcome \<times> files"
  now_started :: string
  now_completed :: string
  elapsed :: int
  os_failure :: "file_op \<Rightarrow> files \<Rightarrow> (string \<times> files) option"

definition APP_SPEC_PATH :: "runner_env \<Rightarrow> string" where
  "APP_SPEC_PATH E = HARNESS_DIR E @ ''/prompts/app_spec.txt''"

definition backup_path :: "runner_env \<Rightarrow> string" where
  "backup_path E = HARNESS_DIR E @ ''/prompts/app_spec.txt.bak''"

definition is_absolute :: "string \<Rightarrow> bool" where
  "is_absolute p = (case p of [] \<Rightarrow> False | c # cs \<Rightarrow> c = CHR ''/'')"

text \<open>\<open>Path(p)\<close>, joined to \<open>HARNESS_DIR\<close> when it is not absolute.\<close>

definition in_harness :: "runner_env \<Rightarrow> string \<Rightarrow> string" where
  "in_harness E p = (if is_absolute p then p else HARNESS_DIR E @ ''/'' @ p)"

definition load_queue :: "world \<Rightarrow> QueueState" where
  "load_queue w =
     (case w_queue_file w of
        None \<Rightarrow> \<lparr>qs_version = 1, qs_jobs = []\<rparr>
      | Some state \<Rightarrow> state)"

definition save_queue :: "QueueState \<Rightarrow> world \<Rightarrow> world" where
  "save_queue state w = w\<lparr>w_queue_file := Some state\<rparr>"

definition processable :: "QueueJob \<Rightarrow> bool" where
  "processable job = (job_status job = Pending \<or> job_status job = Interrupted \<or> job_status job = Running)"

definition get_processable_jobs :: "QueueState \<Rightarrow> QueueJob list" where
  "get_processable_jobs state = filter processable (qs_jobs state)"

definition build_command :: "runner_env \<Rightarrow> QueueJob \<Rightarrow> string list" where
  "build_command E job =
     [sys_executable E, HARNESS_DIR E @ ''/autonomous_agent_demo.py'',
      ''--project-dir'', job_id job, ''--model'', job_model job,
      ''--max-iterations'', str_int (job_max_iterations job)]
     @ (if job_parallel job
        then [''--parallel'', ''--max-workers'', str_int (job_max_workers job)]
        else [])"

text \<open>\<open>str(e)\<close> for an exception: a KeyError shows the \<open>repr\<close> of its key (here for a key
  without quotes or escapes), the others their message.\<close>

definition str_error :: "py_error \<Rightarrow> string" where
  "str_error e =
     (case e of
        KeyError k \<Rightarrow> [CHR 0x27] @ k @ [CHR 0x27]
      | ValueError m \<Rightarrow> m
      | TypeError m \<Rightarrow> m
      | OSError m \<Rightarrow> m)"

text \<open>
  \<open>shutil.copy2\<close>, \<open>shutil.move\<close> and \<open>Path.unlink(missing_ok=True)\<close> on the files. Each
  raises OSError when the operating system refuses it (\<open>os_failure\<close>), and the first two
  when the source is missing; the result is then the exception with the files as the
  failed call leaves them.
\<close>

definition copy2 :: "runner_env \<Rightarrow> string \<Rightarrow> string \<Rightarrow> files \<Rightarrow> (py_error \<times> files) + files" where
  "copy2 E src dst fs =
     (case os_failure E (Copy2 src dst) fs of
        Some (msg, fs') \<Rightarrow> Inl (OSError msg, fs')
      | None \<Rightarrow>
          (case fs src of
             None \<Rightarrow> Inl (OSError (''No such file or directory: '' @ src), fs)
           | Some bytes \<Rightarrow> Inr (fs(dst \<mapsto> bytes))))"

definition move :: "runner_env \<Rightarrow> string \<Rightarrow> string \<Rightarrow> files \<Rightarrow> (py_error \<times> files) + files" where
  "move E src dst fs =
     (case os_failure E (Move src dst) fs of
        Some (msg, fs') \<Rightarrow> Inl (OSError msg, fs')
      | None \<Rightarrow>
          (case fs src of
             None \<Rightarrow> Inl (OSError (''No such file or directory: '' @ src), fs)
           | Some bytes \<Rightarrow> Inr (if src = dst then fs else (fs(dst \<mapsto> bytes))(src := None))))"

definition unlink :: "runner_env \<Rightarrow> string \<Rightarrow> files \<Rightarrow> (py_error \<times> files) + files" where
  "unlink E p fs =
     (case os_failure E (Unlink p) fs of
        Some (msg, fs') \<Rightarrow> Inl (OSError msg, fs')
      | None \<Rightarrow> Inr (fs(p := None)))"

text \<open>
  The first statements of the \<open>try\<close> block of \<open>_run_job\<close>: the files after them and the
  flag \<open>spec_swapped\<close>, or the exception of a copy together with the files at that point
  (the flag is still False then).
\<close>

definition swap_in :: "runner_env \<Rightarrow> string \<Rightarrow> files \<Rightarrow> (py_error \<times> files) + (files \<times> bool)" where
  "swap_in E spec_source fs =
     (if spec_source \<noteq> APP_SPEC_PATH E then
        (case (if fs (APP_SPEC_PATH E) \<noteq> None
               then copy2 E (APP_SPEC_PATH E) (backup_path E) fs else Inr fs) of
           Inl (e, fs1) \<Rightarrow> Inl (e, fs1)
         | Inr fs1 \<Rightarrow>
             (case copy2 E spec_source (APP_SPEC_PATH E) fs1 of
                Inl (e, fs2) \<Rightarrow> Inl (e, fs2)
              | Inr fs2 \<Rightarrow> Inr (fs2, True)))
      else Inr (fs, False))"

text \<open>The \<open>finally\<close> block of \<open>_run_job\<close>; an exception of the move or of the unlink
  leaves the block.\<close>

definition restore_spec :: "runner_env \<Rightarrow> bool \<Rightarrow> files \<Rightarrow> (py_error \<times> files) + files" where
  "restore_spec E spec_swapped fs =
     (if spec_swapped \<and> fs (backup_path E) \<noteq> None then
        move E (backup_path E) (APP_SPEC_PATH E) fs
      else if spec_swapped \<and> fs (backup_path E) = None then
        unlink E (APP_SPEC_PATH E) fs
      else Inr fs)"

text \<open>The part of the \<open>try\<close> block after the swap, with the two \<open>except\<close> clauses: the job,
  the files the child left, and whether KeyboardInterrupt is raised again.\<close>

definition launch :: "runner_env \<Rightarrow> QueueJob \<Rightarrow> string list \<Rightarrow> files \<Rightarrow> QueueJob \<times> files \<times> bool" where
  "launch E job cmd fs =
     (let job1 = job\<lparr>job_status := Running, job_started_at := Some (now_started E)\<rparr>
      in case subprocess_run E cmd fs of
           (Exited returncode, fs') \<Rightarrow>
             (let job2 = job1\<lparr>job_exit_code := Some returncode,
                               job_duration_seconds := Some (elapsed E),
                               job_completed_at := Some (now_completed E)\<rparr>
              in (if returncode = 0 then job2\<lparr>job_status := Completed\<rparr>
                  else if returncode = 130 then job2\<lparr>job_status := Interrupted\<rparr>
                  else job2\<lparr>job_status := Failed,
                             job_error := Some (''Process exited with code '' @ str_int returncode)\<rparr>,
                  fs', False))
         | (Raised msg, fs') \<Rightarrow>
             (job1\<lparr>job_status := Failed, job_error := Some msg,
                    job_completed_at := Some (now_completed E)\<rparr>, fs', False)
         | (KeyboardInterrupt, fs') \<Rightarrow>
             (job1\<lparr>job_status := Interrupted,
                    job_completed_at := Some (now_completed E)\<rparr>, fs', True))"

text \<open>
  How \<open>_run_job\<close> is left: it returns, or the KeyboardInterrupt that was raised again
  leaves it, or an exception of the \<open>finally\<close> block leaves it (taking the place of the
  KeyboardInterrupt when there was one).
\<close>

datatype job_end = Returned | Interrupt_reraised | Error_propagated py_error

text \<open>The \<open>finally\<close> block after the \<open>try\<close> statement left the job \<open>job'\<close> and the files
  \<open>fs\<close>.\<close>

definition leave_job :: "runner_env \<Rightarrow> bool \<Rightarrow> QueueJob \<Rightarrow> files \<Rightarrow> bool \<Rightarrow> QueueJob \<times> files \<times> job_end" where
  "leave_job E spec_swapped job' fs reraised =
     (case restore_spec E spec_swapped fs of
        Inl (e, fs') \<Rightarrow> (job', fs', Error_propagated e)
      | Inr fs' \<Rightarrow> (job', fs', if reraised then Interrupt_reraised else Returned))"

text \<open>\<open>_run_job\<close>: the job as it is left, the files, and how the function is left. An
  exception of the swap is caught by \<open>except Exception\<close>.\<close>

definition run_job :: "runner_env \<Rightarrow> QueueJob \<Rightarrow> bool \<Rightarrow> files \<Rightarrow> QueueJob \<times> files \<times> job_end" where
  "run_job E job dry_run fs =
     (let spec_source = in_harness E (job_spec_path job)
      in if fs spec_source = None then
           (job\<lparr>job_status := Failed,
                 job_error := Some (''Spec file not found: '' @ spec_source)\<rparr>, fs, Returned)
         else
           (let job0 = job\<lparr>job_project_dir := Some (HARNESS_DIR E @ ''/generations/'' @ job_id job)\<rparr>;
                cmd = build_command E job0
            in if dry_run then (job0, fs, Returned)
               else
                 (case swap_in E spec_source fs of
                    Inl (e, fs1) \<Rightarrow>
                      leave_job E False
                        (job0\<lparr>job_status := Failed, job_error := Some (str_error e),
                               job_completed_at := Some (now_completed E)\<rparr>) fs1 False
                  | Inr (fs1, spec_swapped) \<Rightarrow>
                      (case launch E job0 cmd fs1 of
                         (job', fs2, reraised) \<Rightarrow> leave_job E spec_swapped job' fs2 reraised))))"

text \<open>The files at the moment the child is started, for a job that gets that far.\<close>

definition files_at_launch :: "runner_env \<Rightarrow> QueueJob \<Rightarrow> files \<Rightarrow> files" where
  "files_at_launch E job fs =
     (case swap_in E (in_harness E (job_spec_path job)) fs of
        Inl (e, fs1) \<Rightarrow> fs1
      | Inr (fs1, spec_swapped) \<Rightarrow> fs1)"

text \<open>How the child of a job ends.\<close>

definition child_outcome :: "runner_env \<Rightarrow> QueueJob \<Rightarrow> files \<Rightarrow> run_outcome" where
  "child_outcome E job fs =
     fst (subprocess_run E
       (build_command E (job\<lparr>job_project_dir := Some (HARNESS_DIR E @ ''/generations/'' @ job_id job)\<rparr>))
       (files_at_launch E job fs))"

text \<open>What the \<open>finally\<close> block of \<open>_run_job\<close> gives for a job: the restore on the files
  the child left, with the flag the swap set; nothing when the swap raised.\<close>

definition restore_after :: "runner_env \<Rightarrow> QueueJob \<Rightarrow> files \<Rightarrow> (py_error \<times> files) + files" where
  "restore_after E job fs =
     (case swap_in E (in_harness E (job_spec_path job)) fs of
        Inl (e, fs1) \<Rightarrow> restore_spec E False fs1
      | Inr (fs1, spec_swapped) \<Rightarrow>
          restore_spec E spec_swapped
            (snd (subprocess_run E
               (build_command E (job\<lparr>job_project_dir := Some (HARNESS_DIR E @ ''/generations/'' @ job_id job)\<rparr>))
               fs1)))"

text \<open>The arguments of the \<open>add\<close> command.\<close>

record add_args =
  arg_spec_path :: string
  arg_id :: string
  arg_model :: string
  arg_max_iterations :: int
  arg_parallel :: bool
  arg_max_workers :: int

text \<open>\<open>cmd_add\<close>: the exit code and the world it leaves; \<open>now\<close> is the clock reading for
  \<open>created_at\<close>.\<close>

definition cmd_add :: "runner_env \<Rightarrow> string \<Rightarrow> add_args \<Rightarrow> world \<Rightarrow> int \<times> world" where
  "cmd_add E now args w =
     (let spec = in_harness E (arg_spec_path args)
      in if w_files w spec = None then (1, w)
         else
           (let state = load_queue w;
                existing_ids = set (map job_id (qs_jobs state))
            in if arg_id args \<in> existing_ids then (1, w)
               else
                 (let job = \<lparr>job_id = arg_id args, job_spec_path = arg_spec_path args,
                              job_model = arg_model args,
                              job_max_iterations = arg_max_iterations args,
                              job_parallel = arg_parallel args,
                              job_max_workers = arg_max_workers args,
                              job_status = Pending, job_project_dir = None,
                              job_exit_code = None, job_error = None,
                              job_created_at = now, job_started_at = None,
                              job_completed_at = None, job_duration_seconds = None\<rparr>
                  in (0, save_queue (state\<lparr>qs_jobs := qs_jobs state @ [job]\<rparr>) w))))"

text \<open>
  The loop of \<open>cmd_start\<close> over the processable jobs, by their positions in
  \<open>state.jobs\<close> (the loop holds the job objects of the state, so a change to a job is a
  change to the state). After each job the \<open>finally\<close> clause saves the queue unless the run
  is a dry run; an interrupt leaves the loop with \<open>interrupted = True\<close>, and any other
  exception that leaves \<open>_run_job\<close> leaves the loop and \<open>cmd_start\<close> after the save.
\<close>

fun run_jobs :: "runner_env \<Rightarrow> bool \<Rightarrow> nat list \<Rightarrow> QueueState \<Rightarrow> world
    \<Rightarrow> QueueState \<times> world \<times> (py_error + bool)" where
  "run_jobs E dry_run [] state w = (state, w, Inr False)"
| "run_jobs E dry_run (i # rest) state w =
     (case run_job E (qs_jobs state ! i) dry_run (w_files w) of
        (job', fs', ending) \<Rightarrow>
          (let state' = state\<lparr>qs_jobs := (qs_jobs state)[i := job']\<rparr>;
               w1 = w\<lparr>w_files := fs'\<rparr>;
               w2 = (if \<not> dry_run then save_queue state' w1 else w1)
           in case ending of
                Returned \<Rightarrow> run_jobs E dry_run rest state' w2
              | Interrupt_reraised \<Rightarrow> (state', w2, Inr True)
              | Error_propagated e \<Rightarrow> (state', w2, Inl e)))"

definition cmd_start :: "runner_env \<Rightarrow> bool \<Rightarrow> world \<Rightarrow> (py_error + int) \<times> world" where
  "cmd_start E dry_run w =
     (let state = load_queue w;
          todo = filter (\<lambda>i. processable (qs_jobs state ! i)) [0..<length (qs_jobs state)]
      in if todo = [] then (Inr 0, w)
         else (case run_jobs E dry_run todo state w of
                 (state', w', Inr interrupted) \<Rightarrow> (Inr (if interrupted then 130 else 0), w')
               | (state', w', Inl e) \<Rightarrow> (Inl e, w')))"


text \<open>
  A harness at \<open>/h\<close> whose child exits with code 0 and leaves the files alone, and where
  the operating system refuses nothing; a job with the spec file \<open>specs/b.txt\<close>; and three
  states of the files: only the job's spec; the job's spec and a canonical spec; the job's
  spec and a backup file left behind by an earlier run, with no canonical spec.
\<close>

definition env_ok :: runner_env where
  "env_ok = \<lparr>HARNESS_DIR = ''/h'', sys_executable = ''python3'',
     subprocess_run = (\<lambda>cmd fs. (Exited 0, fs)),
     now_started = ''2026-01-01T00:00:00+00:00'',
     now_completed = ''2026-01-01T00:10:00+00:00'', elapsed = 6000,
     os_failure = (\<lambda>op fs. None)\<rparr>"



definition job_b :: QueueJob where
  "job_b = \<lparr>job_id = ''metroplex'', job_spec_path = ''specs/b.txt'', job_model = ''haiku'',
     job_max_iterations = 20, job_parallel = False, job_max_workers = 2,
     job_status = Pending, job_project_dir = None, job_exit_code = None, job_error = None,
     job_created_at = ''2026-01-01T00:00:00+00:00'', job_started_at = None,
     job_completed_at = None, job_duration_seconds = None\<rparr>"

definition files_b :: files where
  "files_b = [''/h/specs/b.txt'' \<mapsto> ''spec B'']"

definition files_ab :: files where
  "files_ab = [''/h/specs/b.txt'' \<mapsto> ''spec B'', ''/h/prompts/app_spec.txt'' \<mapsto> ''spec A'']"

definition files_stale_backup :: files where
  "files_stale_backup =
     [''/h/specs/b.txt'' \<mapsto> ''spec B'', ''/h/prompts/app_spec.txt.bak'' \<mapsto> ''old backup'']"

definition world_one_job :: world where
  "world_one_job = \<lparr>w_files = files_b,
     w_queue_file = Some \<lparr>qs_version = 1, qs_jobs = [job_b]\<rparr>\<rparr>"

definition args_metroplex :: add_args where
  "args_metroplex = \<lparr>arg_spec_path = ''specs/b.txt'', arg_id = ''metroplex'',
     arg_model = ''sonnet'', arg_max_iterations = 20, arg_parallel = False,
     arg_max_workers = 2\<rparr>"


section \<open>linear_status.py: the tracker client\<close>

text \<open>
  What a call of \<open>client.tools.execute\<close> gives: it raises (or the reading of
  \<open>result.output.value\<close> raises), or it returns a value whose \<open>issue\<close> entry may be missing.
  An issue and its state are dicts whose entries may be missing.
\<close>

record api_state =
  api_name :: "string option"
  api_type :: "string option"

record api_issue =
  api_identifier :: "string option"
  api_title :: "string option"
  api_state :: "api_state option"
  api_completed_at :: "string option"

datatype api_result = Raises string | Returns "api_issue option"

text \<open>The dict that \<open>get_issue_status\<close> returns.\<close>

record issue_status =
  status_identifier :: string
  status_title :: string
  status_state_name :: string
  status_state_type :: string
  status_completed_at :: "string option"

definition COMPLETED_STATE_TYPES :: "string set" where
  "COMPLETED_STATE_TYPES = {''completed''}"

definition CANCELLED_STATE_TYPES :: "string set" where
  "CANCELLED_STATE_TYPES = {''canceled''}"

text \<open>\<open>d.get(k, default)\<close> on an entry that may be missing.\<close>

definition get_or :: "'a option \<Rightarrow> 'a \<Rightarrow> 'a" where
  "get_or entry dflt = (case entry of None \<Rightarrow> dflt | Some v \<Rightarrow> v)"

text \<open>\<open>get_issue_status\<close>, given what the call of the client gave for the identifier.\<close>

definition get_issue_status :: "api_result \<Rightarrow> string \<Rightarrow> issue_status" where
  "get_issue_status result issue_identifier =
     (case result of
        Returns value_issue \<Rightarrow>
          (let issue = get_or value_issue
                 \<lparr>api_identifier = None, api_title = None, api_state = None,
                  api_completed_at = None\<rparr>;
               state = get_or (api_state issue) \<lparr>api_name = None, api_type = None\<rparr>
           in \<lparr>status_identifier = get_or (api_identifier issue) issue_identifier,
               status_title = get_or (api_title issue) '''',
               status_state_name = get_or (api_name state) ''Unknown'',
               status_state_type = get_or (api_type state) ''unknown'',
               status_completed_at = api_completed_at issue\<rparr>)
      | Raises e \<Rightarrow>
          \<lparr>status_identifier = issue_identifier, status_title = '''',
           status_state_name = ''Unknown'', status_state_type = ''unknown'',
           status_completed_at = None\<rparr>)"

text \<open>
  The tracker is remote: what it answers may differ from call to call. The client is a
  function of the number of the call (counted from 0 within one check) and the
  identifier asked for.
\<close>

type_synonym tracker = "nat \<Rightarrow> string \<Rightarrow> api_result"

text \<open>The loop of \<open>check_issue_statuses\<close> over \<open>enumerate(issue_identifiers)\<close>, on the
  triple of the completed set, the cancelled set and the status map.\<close>

fun check_loop :: "tracker \<Rightarrow> nat \<Rightarrow> string list
    \<Rightarrow> string set \<times> string set \<times> (string \<rightharpoonup> issue_status)
    \<Rightarrow> string set \<times> string set \<times> (string \<rightharpoonup> issue_status)" where
  "check_loop client i [] acc = acc"
| "check_loop client i (identifier # rest) (completed, cancelled, status_map) =
     (let status = get_issue_status (client i identifier) identifier;
          status_map' = status_map(identifier \<mapsto> status)
      in if status_state_type status \<in> COMPLETED_STATE_TYPES then
           check_loop client (Suc i) rest (insert identifier completed, cancelled, status_map')
         else if status_state_type status \<in> CANCELLED_STATE_TYPES then
           check_loop client (Suc i) rest (completed, insert identifier cancelled, status_map')
         else check_loop client (Suc i) rest (completed, cancelled, status_map'))"

text \<open>\<open>check_issue_statuses\<close>: \<open>_create_arcade_client\<close> raises ValueError when the API key
  is not set (None or empty).\<close>

definition check_issue_statuses :: "string option \<Rightarrow> tracker \<Rightarrow> string list
    \<Rightarrow> py_error + (string set \<times> string set \<times> (string \<rightharpoonup> issue_status))" where
  "check_issue_statuses api_key client issue_identifiers =
     (if api_key = None \<or> api_key = Some '''' then
        Inl (ValueError ''ARCADE_API_KEY not set. Cannot check Linear issue statuses.'')
      else Inr (check_loop client 0 issue_identifiers ({}, {}, Map.empty)))"

text \<open>The statuses that the calls of one check give, in the order of the calls.\<close>

fun statuses :: "tracker \<Rightarrow> nat \<Rightarrow> string list \<Rightarrow> issue_status list" where
  "statuses client i [] = []"
| "statuses client i (x # xs) = get_issue_status (client i x) x # statuses client (Suc i) xs"

text \<open>A tracker answer with the given state, and two trackers: one whose second call
  fails, and one that reports an issue completed at the first call and canceled at every
  later call.\<close>

definition answer :: "string \<Rightarrow> string \<Rightarrow> string \<Rightarrow> api_result" where
  "answer identifier state_name state_type =
     Returns (Some \<lparr>api_identifier = Some identifier, api_title = Some ''Test issue'',
       api_state = Some \<lparr>api_name = Some state_name, api_type = Some state_type\<rparr>,
       api_completed_at = None\<rparr>)"

definition tracker_second_fails :: tracker where
  "tracker_second_fails i x =
     (if i = 0 then answer x ''Done'' ''completed''
      else if i = 1 then Raises ''Network error''
      else answer x ''Canceled'' ''canceled'')"

definition tracker_changing :: tracker where
  "tracker_changing i x =
     (if i = 0 then answer x ''Done'' ''completed'' else answer x ''Canceled'' ''canceled'')"


section \<open>parallel.py: the results of a tier, the merge phase and the retry pass\<close>

definition make_branch_name :: "string \<Rightarrow> string" where
  "make_branch_name issue_id = ''parallel/'' @ issue_id"

text \<open>A worker's result dict, as far as the coordinator reads or writes it: the entries
  \<open>status\<close>, \<open>branch\<close> and \<open>error\<close>, each of which may be missing.\<close>

record worker_result =
  wr_status :: "string option"
  wr_branch :: "string option"
  wr_error :: "string option"

definition no_result :: worker_result where
  "no_result = \<lparr>wr_status = None, wr_branch = None, wr_error = None\<rparr>"

definition result_branch :: "string \<Rightarrow> worker_result \<Rightarrow> string" where
  "result_branch issue_id result = get_or (wr_branch result) (make_branch_name issue_id)"

subsection \<open>The results of a tier\<close>

text \<open>The error result that \<open>_run_tier_parallel\<close> writes for an issue.\<close>

definition error_result :: "string \<Rightarrow> string \<Rightarrow> worker_result" where
  "error_result issue_id msg =
     \<lparr>wr_status = Some ''error'', wr_branch = Some (make_branch_name issue_id),
      wr_error = Some msg\<rparr>"

text \<open>
  The dict \<open>all_results\<close>, in insertion order (the merge phase goes through its items in
  that order): \<open>d[k] = v\<close> replaces the value of a key that is there and appends a new key.
\<close>

type_synonym results = "(string \<times> worker_result) list"

fun dict_set :: "'k \<Rightarrow> 'v \<Rightarrow> ('k \<times> 'v) list \<Rightarrow> ('k \<times> 'v) list" where
  "dict_set k v [] = [(k, v)]"
| "dict_set k v ((k', v') # d) = (if k' = k then (k, v) # d else (k', v') # dict_set k v d)"

text \<open>
  What \<open>_run_tier_parallel\<close> does not decide: whether \<open>create_worktree\<close> succeeds for a
  worker index and an issue; how the task of a spawned worker ends in \<open>asyncio.gather\<close>
  (the text of its exception, or None when it returns); and what \<open>load_worker_result\<close>
  gives for the result file of an issue identifier when the wave is collected, None when
  the file is missing or unreadable or its value counts as false for Python (the test
  \<open>if result\<close>).
\<close>

record workers =
  create_worktree :: "nat \<Rightarrow> issue \<Rightarrow> bool"
  spawn_worker :: "nat \<Rightarrow> issue \<Rightarrow> string option"
  load_worker_result :: "string \<Rightarrow> worker_result option"

text \<open>
  The first loop over a wave, \<open>for i, issue in enumerate(wave)\<close>, on the workers of the
  wave with their indices: an issue whose worktree cannot be created gets an error result
  and no worker (\<open>continue\<close>); the others are appended to \<open>spawn_tasks\<close>. The result is
  the list of spawned workers and the dict; \<open>issue["id"]\<close> raises KeyError.
\<close>

fun setup_wave :: "(nat \<Rightarrow> issue \<Rightarrow> bool) \<Rightarrow> (nat \<times> issue) list \<Rightarrow> results
    \<Rightarrow> py_error + ((nat \<times> issue) list \<times> results)" where
  "setup_wave create_ok [] all_results = Inr ([], all_results)"
| "setup_wave create_ok ((worker_index, issue) # rest) all_results =
     (case issue ''id'' of
        None \<Rightarrow> Inl (KeyError ''id'')
      | Some issue_id \<Rightarrow>
          if \<not> create_ok worker_index issue then
            setup_wave create_ok rest
              (dict_set issue_id (error_result issue_id ''Failed to create worktree'') all_results)
          else
            then_do (setup_wave create_ok rest all_results)
              (\<lambda>(spawned, all_results'). Inr ((worker_index, issue) # spawned, all_results')))"

text \<open>
  The second loop over a wave, \<open>for i, (issue, wr) in enumerate(zip(wave, worker_results))\<close>,
  on the zipped list: the issue is the one of the wave at the position, \<open>wr\<close> is what the
  task at that position of \<open>spawn_tasks\<close> gave, and the result file that is loaded is the one
  of the issue's identifier.
\<close>

fun collect_wave :: "(string \<Rightarrow> worker_result option) \<Rightarrow> (issue \<times> string option) list
    \<Rightarrow> results \<Rightarrow> py_error + results" where
  "collect_wave loaded [] all_results = Inr all_results"
| "collect_wave loaded ((issue, wr) # rest) all_results =
     (case issue ''id'' of
        None \<Rightarrow> Inl (KeyError ''id'')
      | Some issue_id \<Rightarrow>
          collect_wave loaded rest
            (dict_set issue_id
               (case wr of
                  Some msg \<Rightarrow> error_result issue_id msg
                | None \<Rightarrow>
                    (case loaded issue_id of
                       Some result \<Rightarrow> result
                     | None \<Rightarrow> error_result issue_id ''No result file produced''))
               all_results))"

text \<open>The body of the loop over the waves: a wave is given with its \<open>wave_start\<close>; a wave
  that spawns no worker is left by \<open>continue\<close>.\<close>

definition run_wave :: "workers \<Rightarrow> nat \<times> issue list \<Rightarrow> results \<Rightarrow> py_error + results" where
  "run_wave W w all_results =
     then_do (setup_wave (create_worktree W) (wave_workers w) all_results)
       (\<lambda>(spawned, all_results1).
          if spawned = [] then Inr all_results1
          else
            (let worker_results = map (\<lambda>(worker_index, issue). spawn_worker W worker_index issue) spawned
             in collect_wave (load_worker_result W) (zip (snd w) worker_results) all_results1))"

fun run_waves :: "workers \<Rightarrow> (nat \<times> issue list) list \<Rightarrow> results \<Rightarrow> py_error + results" where
  "run_waves W [] all_results = Inr all_results"
| "run_waves W (w # ws) all_results = then_do (run_wave W w all_results) (run_waves W ws)"

text \<open>\<open>_run_tier_parallel\<close>: the dict of results of a tier.\<close>

definition run_tier_parallel :: "workers \<Rightarrow> issue list \<Rightarrow> int \<Rightarrow> py_error + results" where
  "run_tier_parallel W tier_issues max_workers =
     then_do (tier_waves tier_issues max_workers) (\<lambda>waves. run_waves W waves [])"

subsection \<open>The merge phase and the retry pass\<close>

text \<open>
  What the merge phase and the retry pass of \<open>run_parallel_agent\<close> read and write: the
  local set \<open>completed\<close>, the sets of \<open>progress\<close> and of \<open>tier_progress\<close>, the dict
  \<open>merge_results\<close>, the list \<open>requeued\<close>, and the repository.
\<close>

record 'g coord =
  co_completed :: "string set"
  co_progress_completed :: "string set"
  co_requeued_issues :: "string set"
  co_failed_issues :: "string set"
  co_tier_completed :: "string set"
  co_tier_failed :: "string set"
  co_merge_results :: "string \<rightharpoonup> bool"
  co_requeued :: "issue list"
  co_git :: 'g

text \<open>The body of the loop \<open>for issue_id, result in results.items()\<close>;
  \<open>issue_lookup[issue_id]\<close> raises KeyError on a missing key.\<close>

definition merge_step :: "'g git \<Rightarrow> (string \<rightharpoonup> issue) \<Rightarrow> string \<times> worker_result
    \<Rightarrow> 'g coord \<Rightarrow> py_error + 'g coord" where
  "merge_step run_git issue_lookup item st =
     (case item of (issue_id, result) \<Rightarrow>
        if wr_status result = Some ''success'' then
          (let branch = result_branch issue_id result
           in case merge_branch run_git (co_git st) branch of
                (mr, g1) \<Rightarrow>
                  if mr_success mr then
                    Inr (st\<lparr>co_merge_results := (co_merge_results st)(issue_id \<mapsto> True),
                            co_completed := insert issue_id (co_completed st),
                            co_progress_completed := insert issue_id (co_progress_completed st),
                            co_tier_completed := insert issue_id (co_tier_completed st),
                            co_git := delete_branch run_git g1 branch\<rparr>)
                  else if mr_conflict mr then
                    (case issue_lookup issue_id of
                       None \<Rightarrow> Inl (KeyError issue_id)
                     | Some issue \<Rightarrow>
                         Inr (st\<lparr>co_merge_results := (co_merge_results st)(issue_id \<mapsto> False),
                                 co_requeued_issues := insert issue_id (co_requeued_issues st),
                                 co_requeued := co_requeued st @ [issue],
                                 co_git := g1\<rparr>))
                  else
                    Inr (st\<lparr>co_merge_results := (co_merge_results st)(issue_id \<mapsto> False),
                            co_failed_issues := insert issue_id (co_failed_issues st),
                            co_tier_failed := insert issue_id (co_tier_failed st),
                            co_git := g1\<rparr>))
        else
          Inr (st\<lparr>co_failed_issues := insert issue_id (co_failed_issues st),
                  co_tier_failed := insert issue_id (co_tier_failed st)\<rparr>))"

fun merge_phase :: "'g git \<Rightarrow> (string \<rightharpoonup> issue) \<Rightarrow> (string \<times> worker_result) list
    \<Rightarrow> 'g coord \<Rightarrow> py_error + 'g coord" where
  "merge_phase run_git issue_lookup [] st = Inr st"
| "merge_phase run_git issue_lookup (item # rest) st =
     then_do (merge_step run_git issue_lookup item st) (merge_phase run_git issue_lookup rest)"

text \<open>
  The retry of one issue runs a one-element wave: what the worker's run returns (the dict
  of results) and what it does to the repository is a parameter \<open>run_worker\<close>.
  \<open>result_dict.get(issue_id, {})\<close> gives a result without status when the key is missing.
\<close>

type_synonym 'g worker_run = "'g \<Rightarrow> issue \<Rightarrow> (string \<rightharpoonup> worker_result) \<times> 'g"

definition retry_result :: "'g worker_run \<Rightarrow> 'g \<Rightarrow> issue \<Rightarrow> string \<Rightarrow> worker_result" where
  "retry_result run_worker g issue issue_id = get_or (fst (run_worker g issue) issue_id) no_result"

text \<open>The body of the loop \<open>for issue in requeued\<close>; \<open>issue["id"]\<close> raises KeyError on an
  issue without that key.\<close>

definition retry_step :: "'g git \<Rightarrow> 'g worker_run \<Rightarrow> issue \<Rightarrow> 'g coord \<Rightarrow> py_error + 'g coord" where
  "retry_step run_git run_worker issue st =
     (case issue ''id'' of
        None \<Rightarrow> Inl (KeyError ''id'')
      | Some issue_id \<Rightarrow>
          (let result = retry_result run_worker (co_git st) issue issue_id;
               g0 = snd (run_worker (co_git st) issue)
           in if wr_status result = Some ''success'' then
                (let branch = result_branch issue_id result
                 in case merge_branch run_git g0 branch of
                      (mr, g1) \<Rightarrow>
                        if mr_success mr then
                          Inr (st\<lparr>co_completed := insert issue_id (co_completed st),
                                  co_progress_completed := insert issue_id (co_progress_completed st),
                                  co_requeued_issues := co_requeued_issues st - {issue_id},
                                  co_git := delete_branch run_git g1 branch\<rparr>)
                        else Inr (st\<lparr>co_git := g1\<rparr>))
              else Inr (st\<lparr>co_git := g0\<rparr>)))"

fun retry_pass :: "'g git \<Rightarrow> 'g worker_run \<Rightarrow> issue list \<Rightarrow> 'g coord \<Rightarrow> py_error + 'g coord" where
  "retry_pass run_git run_worker [] st = Inr st"
| "retry_pass run_git run_worker (issue # rest) st =
     then_do (retry_step run_git run_worker issue st) (retry_pass run_git run_worker rest)"

text \<open>
  A repository that keeps the list of the git commands run on it: the first merge stops on
  a conflict, every later one succeeds, and every other git command succeeds. A worker that
  reports success for its issue and leaves the repository as it is. The issue \<open>T-X\<close> and
  the coordinator's state before the merge phase of its tier.
\<close>

definition conflict_once_git :: "string list list git" where
  "conflict_once_git log args =
     (if take 2 args = [''merge'', ''--no-ff''] \<and>
         filter (\<lambda>a. take 2 a = [''merge'', ''--no-ff'']) log = []
      then ((1, ''CONFLICT (content): Merge conflict in README.md'', ''''), log @ [args])
      else ((0, '''', ''''), log @ [args]))"

definition worker_succeeds :: "string list list worker_run" where
  "worker_succeeds g issue =
     ((case issue ''id'' of
         None \<Rightarrow> Map.empty
       | Some issue_id \<Rightarrow>
           [issue_id \<mapsto> \<lparr>wr_status = Some ''success'',
                          wr_branch = Some (make_branch_name issue_id),
                          wr_error = Some ''''\<rparr>]), g)"

definition issue_TX :: issue where
  "issue_TX = [''id'' \<mapsto> ''T-X'', ''category'' \<mapsto> ''backend'']"

definition coord_start :: "string list list coord" where
  "coord_start = \<lparr>co_completed = {}, co_progress_completed = {}, co_requeued_issues = {},
     co_failed_issues = {}, co_tier_completed = {}, co_tier_failed = {},
     co_merge_results = Map.empty, co_requeued = [], co_git = []\<rparr>"

text \<open>The result of the worker of \<open>T-X\<close>, the coordinator's state after the merge phase
  met the conflict, and its state after the retry pass.\<close>

definition result_TX :: worker_result where
  "result_TX = \<lparr>wr_status = Some ''success'', wr_branch = Some ''parallel/T-X'',
     wr_error = Some ''''\<rparr>"

definition coord_conflicted :: "string list list coord" where
  "coord_conflicted = coord_start\<lparr>co_merge_results := [''T-X'' \<mapsto> False],
     co_requeued_issues := {''T-X''}, co_requeued := [issue_TX],
     co_git := [[''merge'', ''--no-ff'', ''-m'', ''Merge parallel branch: parallel/T-X'', ''parallel/T-X''],
                [''merge'', ''--abort'']]\<rparr>"

definition coord_retried :: "string list list coord" where
  "coord_retried = coord_conflicted\<lparr>co_completed := {''T-X''},
     co_progress_completed := {''T-X''}, co_requeued_issues := {},
     co_git := [[''merge'', ''--no-ff'', ''-m'', ''Merge parallel branch: parallel/T-X'', ''parallel/T-X''],
                [''merge'', ''--abort''],
                [''merge'', ''--no-ff'', ''-m'', ''Merge parallel branch: parallel/T-X'', ''parallel/T-X''],
                [''branch'', ''-d'', ''parallel/T-X'']]\<rparr>"

text \<open>
  A tier of two issues, \<open>T-A\<close> and \<open>T-B\<close>, run with two workers. In the first run the
  worktree of \<open>T-A\<close> cannot be created; in the second every worktree is created. In both
  the worker of \<open>T-B\<close> runs, returns, and leaves a result file that reports success on the
  branch \<open>parallel/T-B\<close>; there is no result file of \<open>T-A\<close> in the first run, and one that
  reports success in the second. The repository takes every git command and keeps the list
  of them.
\<close>

definition issue_TA :: issue where
  "issue_TA = [''id'' \<mapsto> ''T-A'', ''category'' \<mapsto> ''frontend'']"

definition issue_TB :: issue where
  "issue_TB = [''id'' \<mapsto> ''T-B'', ''category'' \<mapsto> ''frontend'']"

definition result_TA :: worker_result where
  "result_TA = \<lparr>wr_status = Some ''success'', wr_branch = Some ''parallel/T-A'',
     wr_error = Some ''''\<rparr>"

definition result_TB :: worker_result where
  "result_TB = \<lparr>wr_status = Some ''success'', wr_branch = Some ''parallel/T-B'',
     wr_error = Some ''''\<rparr>"

definition workers_first_fails :: workers where
  "workers_first_fails =
     \<lparr>create_worktree = (\<lambda>worker_index issue. issue ''id'' \<noteq> Some ''T-A''),
      spawn_worker = (\<lambda>worker_index issue. None),
      load_worker_result = (\<lambda>issue_id. if issue_id = ''T-B'' then Some result_TB else None)\<rparr>"

definition workers_all_created :: workers where
  "workers_all_created =
     \<lparr>create_worktree = (\<lambda>worker_index issue. True),
      spawn_worker = (\<lambda>worker_index issue. None),
      load_worker_result = (\<lambda>issue_id. if issue_id = ''T-B'' then Some result_TB
         else if issue_id = ''T-A'' then Some result_TA else None)\<rparr>"

definition logging_git :: "string list list git" where
  "logging_git log args = ((0, '''', ''''), log @ [args])"

definition lookup_AB :: "string \<rightharpoonup> issue" where
  "lookup_AB = [''T-A'' \<mapsto> issue_TA, ''T-B'' \<mapsto> issue_TB]"


section \<open>Properties of the merge driver\<close>

lemma merge_branch_cases:
  "fst (merge_branch run_git g b) = r \<Longrightarrow>
     (mr_success r \<and> \<not> mr_conflict r \<and> mr_error r = '''') \<or>
     (\<not> mr_success r \<and> mr_conflict r \<and> mr_error r = '''') \<or>
     (\<not> mr_success r \<and> \<not> mr_conflict r \<and> mr_error r = merge_stderr run_git g b)"
  unfolding merge_branch_def merge_stderr_def
  by (auto split: prod.splits if_splits)

text \<open>
  C1, as the code has it: a merge result is a success, or a conflict, or neither, never
  two at once; the branch is the one asked for; and when it is neither a success nor a
  conflict the error message is the stderr of the \<open>git merge\<close> call, whatever that is
  (it may be empty).
\<close>

theorem merge_branch_exclusive:
  "(mr_success (fst (merge_branch run_git g b)) \<longrightarrow> \<not> mr_conflict (fst (merge_branch run_git g b))) \<and>
   (mr_conflict (fst (merge_branch run_git g b)) \<longrightarrow> \<not> mr_success (fst (merge_branch run_git g b))) \<and>
   (\<not> mr_success (fst (merge_branch run_git g b)) \<and> \<not> mr_conflict (fst (merge_branch run_git g b)) \<longrightarrow>
      mr_error (fst (merge_branch run_git g b)) = merge_stderr run_git g b) \<and>
   mr_branch (fst (merge_branch run_git g b)) = b"
proof -
  have b: "mr_branch (fst (merge_branch run_git g b)) = b"
    unfolding merge_branch_def by (auto split: prod.splits if_splits)
  from merge_branch_cases [OF refl, of run_git g b] b show ?thesis
    by blast
qed

theorem merge_branch_exclusive_witness:
  "\<not> mr_success (fst (merge_branch silent_failing_git () ''parallel/T-1'')) \<and>
   \<not> mr_conflict (fst (merge_branch silent_failing_git () ''parallel/T-1'')) \<and>
   mr_error (fst (merge_branch silent_failing_git () ''parallel/T-1'')) =
     merge_stderr silent_failing_git () ''parallel/T-1'' \<and>
   mr_branch (fst (merge_branch silent_failing_git () ''parallel/T-1'')) = ''parallel/T-1''"
proof -
  have "\<not> mr_success (fst (merge_branch silent_failing_git () ''parallel/T-1''))"
    by (simp add: merge_branch_def silent_failing_git_def lower_def)
  moreover have "\<not> mr_conflict (fst (merge_branch silent_failing_git () ''parallel/T-1''))"
    by (simp add: merge_branch_def silent_failing_git_def lower_def)
  ultimately show ?thesis
    using merge_branch_exclusive [of silent_failing_git "()" "''parallel/T-1''"] by blast
qed

text \<open>
  The claim as the spec states it fails: a \<open>git merge\<close> that exits with code 1 and prints
  nothing gives a result that is neither a success nor a conflict and has an empty error
  message.
\<close>

theorem merge_branch_error_may_be_empty:
  "\<not> mr_success (fst (merge_branch silent_failing_git () ''parallel/T-1'')) \<and>
   \<not> mr_conflict (fst (merge_branch silent_failing_git () ''parallel/T-1'')) \<and>
   mr_error (fst (merge_branch silent_failing_git () ''parallel/T-1'')) = ''''"
  by (simp add: merge_branch_def silent_failing_git_def lower_def)

section \<open>Properties of the readiness scan\<close>

lemma remaining_empty_iff:
  "(filter (\<lambda>iid. iid \<notin> C) xs = []) = (set xs \<subseteq> C)"
  by (auto simp: filter_empty_conv)

lemma get_ready_loop_all_done:
  "(\<forall>u\<in>set ts. set (issue_ids u) \<subseteq> C) \<Longrightarrow> get_ready_loop ts C = ([], None)"
proof (induction ts)
  case Nil
  show ?case by simp
next
  case (Cons t ts)
  then have "filter (\<lambda>iid. iid \<notin> C) (issue_ids t) = []"
    by (simp add: remaining_empty_iff)
  with Cons show ?case by simp
qed

lemma get_ready_loop_found:
  "get_ready_loop ts C = (r, Some t) \<Longrightarrow>
     \<exists>pre post. ts = pre @ t # post \<and> (\<forall>u\<in>set pre. set (issue_ids u) \<subseteq> C) \<and>
       r = filter (\<lambda>iid. iid \<notin> C) (issue_ids t) \<and> r \<noteq> []"
proof (induction ts)
  case Nil
  then show ?case by simp
next
  case (Cons a ts)
  show ?case
  proof (cases "filter (\<lambda>iid. iid \<notin> C) (issue_ids a) = []")
    case True
    with Cons.prems have "get_ready_loop ts C = (r, Some t)" by simp
    from Cons.IH [OF this] obtain pre post where
      pp: "ts = pre @ t # post" "\<forall>u\<in>set pre. set (issue_ids u) \<subseteq> C"
          "r = filter (\<lambda>iid. iid \<notin> C) (issue_ids t)" "r \<noteq> []"
      by blast
    from True have "set (issue_ids a) \<subseteq> C"
      by (simp add: remaining_empty_iff)
    with pp have "a # ts = (a # pre) @ t # post \<and> (\<forall>u\<in>set (a # pre). set (issue_ids u) \<subseteq> C)"
      by simp
    with pp(3,4) show ?thesis by blast
  next
    case False
    with Cons.prems have "r = filter (\<lambda>iid. iid \<notin> C) (issue_ids a)" "t = a"
      by (auto simp: Let_def)
    with False have "a # ts = [] @ t # ts \<and> (\<forall>u\<in>set []. set (issue_ids u) \<subseteq> C) \<and>
        r = filter (\<lambda>iid. iid \<notin> C) (issue_ids t) \<and> r \<noteq> []"
      by simp
    then show ?thesis by blast
  qed
qed

lemma get_ready_loop_none_done:
  "get_ready_loop ts C = (r, None) \<Longrightarrow> r = [] \<and> (\<forall>u\<in>set ts. set (issue_ids u) \<subseteq> C)"
proof (induction ts)
  case Nil
  then show ?case by simp
next
  case (Cons a ts)
  show ?case
  proof (cases "filter (\<lambda>iid. iid \<notin> C) (issue_ids a) = []")
    case True
    with Cons.prems have "get_ready_loop ts C = (r, None)" by simp
    from Cons.IH [OF this] True show ?thesis
      by (simp add: remaining_empty_iff)
  next
    case False
    with Cons.prems show ?thesis by (simp add: Let_def)
  qed
qed

lemma get_ready_loop_sorted:
  assumes "get_ready_loop ts C = (r, Some t)"
    and "sorted_wrt (<) (map tier ts)"
    and "u \<in> set ts" and "tier u < tier t"
  shows "set (issue_ids u) \<subseteq> C"
proof -
  from get_ready_loop_found [OF assms(1)] obtain pre post where
    pp: "ts = pre @ t # post" "\<forall>u\<in>set pre. set (issue_ids u) \<subseteq> C"
    by blast
  from assms(2) pp(1) have "\<forall>v\<in>set post. tier t < tier v"
    by (simp add: sorted_wrt_append)
  with assms(3,4) pp(1) have "u \<in> set pre"
    by auto
  with pp(2) show ?thesis by blast
qed

text \<open>
  C3: \<open>get_ready_issues\<close> scans the tiers in the order of the plan's list, which is
  the order of the indices only when the list is sorted. It returns the first tier of the
  list that has an identifier outside the completed set, with exactly that tier's
  unfinished identifiers in the tier's order; every tier before it in the list is
  contained in the completed set, and when the indices of the list ascend strictly (as in
  every plan of \<open>build_plan\<close>) so is every tier of smaller index; it returns the empty
  list and no tier exactly when every tier is contained in the completed set; and it does
  return a tier whenever some tier is unfinished.
\<close>

theorem get_ready_issues_first_unfinished:
  "(get_ready_issues plan C = (r, Some t) \<longrightarrow>
      (\<exists>pre post. tiers plan = pre @ t # post \<and> (\<forall>u\<in>set pre. set (issue_ids u) \<subseteq> C)) \<and>
      r = filter (\<lambda>iid. iid \<notin> C) (issue_ids t) \<and> r \<noteq> [] \<and>
      (sorted_wrt (<) (map tier (tiers plan)) \<longrightarrow>
         (\<forall>u\<in>set (tiers plan). tier u < tier t \<longrightarrow> set (issue_ids u) \<subseteq> C))) \<and>
   ((get_ready_issues plan C = ([], None)) = (\<forall>u\<in>set (tiers plan). set (issue_ids u) \<subseteq> C)) \<and>
   (get_ready_issues plan C = (r, None) \<longrightarrow> r = []) \<and>
   ((\<exists>u\<in>set (tiers plan). \<not> set (issue_ids u) \<subseteq> C) \<longrightarrow>
      (\<exists>r' t'. get_ready_issues plan C = (r', Some t')))"
proof (intro conjI impI)
  assume a: "get_ready_issues plan C = (r, Some t)"
  then have l: "get_ready_loop (tiers plan) C = (r, Some t)"
    by (simp add: get_ready_issues_def)
  from get_ready_loop_found [OF l]
  show "\<exists>pre post. tiers plan = pre @ t # post \<and> (\<forall>u\<in>set pre. set (issue_ids u) \<subseteq> C)"
    and "r = filter (\<lambda>iid. iid \<notin> C) (issue_ids t)" and "r \<noteq> []"
    by blast+
  assume s: "sorted_wrt (<) (map tier (tiers plan))"
  show "\<forall>u\<in>set (tiers plan). tier u < tier t \<longrightarrow> set (issue_ids u) \<subseteq> C"
    using get_ready_loop_sorted [OF l s] by blast
next
  show "(get_ready_issues plan C = ([], None)) = (\<forall>u\<in>set (tiers plan). set (issue_ids u) \<subseteq> C)"
    unfolding get_ready_issues_def
    using get_ready_loop_all_done [of "tiers plan" C] get_ready_loop_none_done [of "tiers plan" C "[]"]
    by blast
next
  assume "get_ready_issues plan C = (r, None)"
  then show "r = []"
    unfolding get_ready_issues_def using get_ready_loop_none_done by blast
next
  assume u: "\<exists>u\<in>set (tiers plan). \<not> set (issue_ids u) \<subseteq> C"
  obtain r' o' where ro: "get_ready_loop (tiers plan) C = (r', o')"
    by (cases "get_ready_loop (tiers plan) C")
  show "\<exists>r' t'. get_ready_issues plan C = (r', Some t')"
  proof (cases o')
    case None
    with ro get_ready_loop_none_done [of "tiers plan" C r'] u show ?thesis by blast
  next
    case (Some t')
    with ro show ?thesis by (simp add: get_ready_issues_def)
  qed
qed

theorem get_ready_issues_first_unfinished_witness:
  "get_ready_issues plan_S1 {''T-1'', ''T-2''} = ([''T-3''], Some tier2_S1) \<and>
   (\<exists>pre post. tiers plan_S1 = pre @ tier2_S1 # post \<and>
      (\<forall>u\<in>set pre. set (issue_ids u) \<subseteq> {''T-1'', ''T-2''})) \<and>
   [''T-3''] = filter (\<lambda>iid. iid \<notin> {''T-1'', ''T-2''}) (issue_ids tier2_S1) \<and>
   set (issue_ids tier1_S1) \<subseteq> {''T-1'', ''T-2''}"
proof -
  have e: "get_ready_issues plan_S1 {''T-1'', ''T-2''} = ([''T-3''], Some tier2_S1)"
    by (simp add: get_ready_issues_def plan_S1_def tier1_S1_def tier2_S1_def Let_def)
  have s: "sorted_wrt (<) (map tier (tiers plan_S1))"
    by (simp add: plan_S1_def tier1_S1_def tier2_S1_def tier3_S1_def tier7_S1_def)
  have m: "tier1_S1 \<in> set (tiers plan_S1)" "tier tier1_S1 < tier tier2_S1"
    by (simp_all add: plan_S1_def tier1_S1_def tier2_S1_def)
  from get_ready_issues_first_unfinished [of plan_S1 "{''T-1'', ''T-2''}" "[''T-3'']" tier2_S1] e s m
  show ?thesis by blast
qed

text \<open>
  On a plan that lists tier 7 before tier 1 the scan returns tier 7 although tier 1, of
  smaller index, has an identifier outside the completed set.
\<close>

theorem get_ready_issues_list_order:
  "get_ready_issues plan_unsorted {} = ([''T-6''], Some tier7_S1) \<and>
   tier1_S1 \<in> set (tiers plan_unsorted) \<and>
   tier tier1_S1 < tier tier7_S1 \<and>
   \<not> set (issue_ids tier1_S1) \<subseteq> {}"
  by (simp add: get_ready_issues_def plan_unsorted_def tier1_S1_def tier7_S1_def Let_def)

section \<open>Properties of the plan builder\<close>

lemma setdefault_append_keys:
  "map fst (setdefault_append k v g) = (if k \<in> fst ` set g then map fst g else map fst g @ [k])"
  by (induction g) (force simp: image_iff)+

lemma setdefault_append_map_of:
  "map_of (setdefault_append k v g) =
     (map_of g)(k \<mapsto> (case map_of g k of None \<Rightarrow> [v] | Some vs \<Rightarrow> vs @ [v]))"
  by (induction g) (auto simp: fun_eq_iff)

lemma setdefault_append_distinct:
  "distinct (map fst g) \<Longrightarrow> distinct (map fst (setdefault_append k v g))"
  by (simp add: setdefault_append_keys)

lemma ids_in_tier_Nil: "ids_in_tier n [] = []"
  by (simp add: ids_in_tier_def map_filter_simps)

lemma ids_in_tier_Cons:
  "ids_in_tier n (i # is) =
     (if issue_tier i = n then (case i ''id'' of None \<Rightarrow> ids_in_tier n is | Some x \<Rightarrow> x # ids_in_tier n is)
      else ids_in_tier n is)"
  by (simp add: ids_in_tier_def map_filter_simps split: option.splits)

lemma group_issues_ok:
  "\<forall>i\<in>set issues. i ''id'' \<noteq> None \<Longrightarrow> distinct (map fst g) \<Longrightarrow>
   \<exists>G. group_issues issues g = Inr G \<and> distinct (map fst G) \<and>
       fst ` set G = fst ` set g \<union> issue_tier ` set issues \<and>
       (\<forall>n. n \<in> fst ` set G \<longrightarrow>
          map_of G n = Some ((case map_of g n of None \<Rightarrow> [] | Some vs \<Rightarrow> vs) @ ids_in_tier n issues))"
proof (induction issues arbitrary: g)
  case Nil
  then show ?case
    by (auto simp: ids_in_tier_Nil map_of_eq_None_iff split: option.splits)
next
  case (Cons i "is")
  from Cons.prems obtain x where x: "i ''id'' = Some x" by auto
  let ?g = "setdefault_append (issue_tier i) x g"
  have d: "distinct (map fst ?g)" using Cons.prems(2) by (rule setdefault_append_distinct)
  from Cons.prems have "\<forall>i\<in>set is. i ''id'' \<noteq> None" by simp
  from Cons.IH [OF this d] obtain G where
    G: "group_issues is ?g = Inr G" "distinct (map fst G)"
       "fst ` set G = fst ` set ?g \<union> issue_tier ` set is"
       "\<forall>n. n \<in> fst ` set G \<longrightarrow>
          map_of G n = Some ((case map_of ?g n of None \<Rightarrow> [] | Some vs \<Rightarrow> vs) @ ids_in_tier n is)"
    by blast
  have k: "fst ` set ?g = insert (issue_tier i) (fst ` set g)"
    using setdefault_append_keys [of "issue_tier i" x g]
    by (metis (no_types, lifting) insert_absorb list.set_map set_append list.simps(15) Un_insert_right sup_bot.right_neutral set_simps(1) empty_set)
  have 1: "group_issues (i # is) g = Inr G" using x G(1) by simp
  have 3: "fst ` set G = fst ` set g \<union> issue_tier ` set (i # is)" using G(3) k by auto
  have 4: "map_of G n = Some ((case map_of g n of None \<Rightarrow> [] | Some vs \<Rightarrow> vs) @ ids_in_tier n (i # is))"
    if "n \<in> fst ` set G" for n
    using G(4) that x
    by (auto simp: setdefault_append_map_of ids_in_tier_Cons split: option.splits)
  from 1 G(2) 3 4 show ?case by blast
qed

lemma in_ids_in_tier:
  "x \<in> set (ids_in_tier n issues) \<longleftrightarrow> (\<exists>j\<in>set issues. j ''id'' = Some x \<and> issue_tier j = n)"
  by (induction issues) (auto simp: ids_in_tier_Nil ids_in_tier_Cons split: option.splits)

lemma build_tiers_ok:
  "set ns \<subseteq> fst ` set G \<Longrightarrow>
   \<exists>ts. build_tiers ns G = Inr ts \<and> map tier ts = ns \<and>
     (\<forall>t\<in>set ts. map_of G (tier t) = Some (issue_ids t) \<and>
        description t = tier_description (tier t) \<and>
        sequential t = (tier t \<in> SEQUENTIAL_TIERS))"
proof (induction ns)
  case Nil
  show ?case by simp
next
  case (Cons n ns)
  then obtain ts where ts: "build_tiers ns G = Inr ts" "map tier ts = ns"
    "\<forall>t\<in>set ts. map_of G (tier t) = Some (issue_ids t) \<and>
        description t = tier_description (tier t) \<and>
        sequential t = (tier t \<in> SEQUENTIAL_TIERS)"
    by auto
  from Cons.prems have "map_of G n \<noteq> None"
    by (simp add: map_of_eq_None_iff)
  then obtain ids where ids: "map_of G n = Some ids" by blast
  let ?t = "\<lparr>tier = n, issue_ids = ids, description = tier_description n,
               sequential = (n \<in> SEQUENTIAL_TIERS)\<rparr>"
  have "build_tiers (n # ns) G = Inr (?t # ts) \<and> map tier (?t # ts) = n # ns \<and>
     (\<forall>t\<in>set (?t # ts). map_of G (tier t) = Some (issue_ids t) \<and>
        description t = tier_description (tier t) \<and>
        sequential t = (tier t \<in> SEQUENTIAL_TIERS))"
    using ts ids by simp
  then show ?case by (rule exI)
qed

lemma build_plan_shape:
  assumes "\<forall>i\<in>set issues. i ''id'' \<noteq> None"
  shows "\<exists>plan. build_plan issues mp now = Inr plan \<and>
     sorted_wrt (<) (map tier (tiers plan)) \<and>
     set (map tier (tiers plan)) = issue_tier ` set issues \<and>
     (\<forall>t\<in>set (tiers plan). issue_ids t = ids_in_tier (tier t) issues \<and>
        description t = tier_description (tier t) \<and>
        sequential t = (tier t \<in> SEQUENTIAL_TIERS)) \<and>
     max_parallelism plan = mp \<and> created_at plan = now \<and>
     total_issues plan = sum_list (map tier_size (tiers plan))"
proof -
  from group_issues_ok [OF assms, of "[]"] obtain G where
    G: "group_issues issues [] = Inr G" "distinct (map fst G)"
       "fst ` set G = issue_tier ` set issues"
       "\<forall>n. n \<in> fst ` set G \<longrightarrow> map_of G n = Some (ids_in_tier n issues)"
    by auto
  have "set (sort (map fst G)) \<subseteq> fst ` set G" by simp
  from build_tiers_ok [OF this] obtain ts where
    ts: "build_tiers (sort (map fst G)) G = Inr ts" "map tier ts = sort (map fst G)"
        "\<forall>t\<in>set ts. map_of G (tier t) = Some (issue_ids t) \<and>
          description t = tier_description (tier t) \<and>
          sequential t = (tier t \<in> SEQUENTIAL_TIERS)"
    by blast
  let ?plan = "ParallelPlan_init ts mp now"
  have 1: "build_plan issues mp now = Inr ?plan"
    using G(1) ts(1) by (simp add: build_plan_def)
  have 2: "sorted_wrt (<) (map tier (tiers ?plan))"
    using ts(2) G(2) by (simp add: ParallelPlan_init_def strict_sorted_iff)
  have 3: "set (map tier (tiers ?plan)) = issue_tier ` set issues"
    using ts(2) G(3) by (simp add: ParallelPlan_init_def)
  have mem: "tier t \<in> fst ` set G" if "t \<in> set ts" for t
  proof -
    from that have "tier t \<in> set (map tier ts)" by simp
    then show ?thesis unfolding ts(2) by simp
  qed
  have 4: "\<forall>t\<in>set (tiers ?plan). issue_ids t = ids_in_tier (tier t) issues \<and>
        description t = tier_description (tier t) \<and>
        sequential t = (tier t \<in> SEQUENTIAL_TIERS)"
    using ts(3) G(4) mem by (auto simp: ParallelPlan_init_def)
  have 5: "max_parallelism ?plan = mp \<and> created_at ?plan = now \<and>
     total_issues ?plan = sum_list (map tier_size (tiers ?plan))"
    by (simp add: ParallelPlan_init_def)
  from 1 2 3 4 5 have "build_plan issues mp now = Inr ?plan \<and>
     sorted_wrt (<) (map tier (tiers ?plan)) \<and>
     set (map tier (tiers ?plan)) = issue_tier ` set issues \<and>
     (\<forall>t\<in>set (tiers ?plan). issue_ids t = ids_in_tier (tier t) issues \<and>
        description t = tier_description (tier t) \<and>
        sequential t = (tier t \<in> SEQUENTIAL_TIERS)) \<and>
     max_parallelism ?plan = mp \<and> created_at ?plan = now \<and>
     total_issues ?plan = sum_list (map tier_size (tiers ?plan))"
    by (intro conjI) simp_all
  then show ?thesis by (rule exI)
qed

lemma issue_tier_table:
  "(lower (issue_category i) = ''setup'' \<longrightarrow> issue_tier i = 1) \<and>
   (lower (issue_category i) = ''backend'' \<longrightarrow> issue_tier i = 2) \<and>
   (lower (issue_category i) = ''frontend'' \<longrightarrow> issue_tier i = 3) \<and>
   (lower (issue_category i) = ''a2ui-catalog'' \<longrightarrow> issue_tier i = 3) \<and>
   (lower (issue_category i) = ''feature'' \<longrightarrow> issue_tier i = 4) \<and>
   (lower (issue_category i) = ''styling'' \<longrightarrow> issue_tier i = 5) \<and>
   (lower (issue_category i) = ''testing'' \<longrightarrow> issue_tier i = 6) \<and>
   (lower (issue_category i) = ''integration'' \<longrightarrow> issue_tier i = 7) \<and>
   (lower (issue_category i) \<notin> fst ` set CATEGORY_TIERS \<longrightarrow> issue_tier i = 4)"
proof -
  have "issue_tier i = 4" if "lower (issue_category i) \<notin> fst ` set CATEGORY_TIERS"
  proof -
    from that have "map_of CATEGORY_TIERS (lower (issue_category i)) = None"
      by (simp add: map_of_eq_None_iff)
    then show ?thesis by (simp add: issue_tier_def DEFAULT_TIER_def)
  qed
  then show ?thesis
    by (simp add: issue_tier_def CATEGORY_TIERS_def)
qed

text \<open>
  C2, as the code has it. For every list of issues that each have an \<open>id\<close>,
  \<open>build_plan\<close> returns a plan; its tier indices ascend strictly; every issue's
  identifier is in the tier of index \<open>issue_tier\<close> of that issue, which is the table's
  tier for the lower-cased category (setup 1, backend 2, frontend and a2ui-catalog 3,
  feature 4, styling 5, testing 6, integration 7) and 4 for every other category; a
  tier's identifiers are those of the issues of that tier in input order; a tier is
  sequential exactly when its index is 1 or 7; and when the identifiers of the input are
  pairwise distinct, every identifier is in exactly one tier.
\<close>

theorem build_plan_tiers:
  assumes "\<forall>i\<in>set issues. i ''id'' \<noteq> None"
  shows "(\<exists>plan. build_plan issues mp now = Inr plan \<and>
     sorted_wrt (<) (map tier (tiers plan)) \<and>
     (\<forall>i\<in>set issues. \<forall>x. i ''id'' = Some x \<longrightarrow>
        (\<exists>t\<in>set (tiers plan). tier t = issue_tier i \<and> x \<in> set (issue_ids t))) \<and>
     (\<forall>t\<in>set (tiers plan). issue_ids t = ids_in_tier (tier t) issues \<and>
        sequential t = (tier t = 1 \<or> tier t = 7)) \<and>
     (distinct (map (\<lambda>i. i ''id'') issues) \<longrightarrow>
        (\<forall>i\<in>set issues. \<forall>x. i ''id'' = Some x \<longrightarrow>
           (\<exists>!t. t \<in> set (tiers plan) \<and> x \<in> set (issue_ids t))))) \<and>
   (\<forall>i. (lower (issue_category i) = ''setup'' \<longrightarrow> issue_tier i = 1) \<and>
        (lower (issue_category i) = ''backend'' \<longrightarrow> issue_tier i = 2) \<and>
        (lower (issue_category i) = ''frontend'' \<longrightarrow> issue_tier i = 3) \<and>
        (lower (issue_category i) = ''a2ui-catalog'' \<longrightarrow> issue_tier i = 3) \<and>
        (lower (issue_category i) = ''feature'' \<longrightarrow> issue_tier i = 4) \<and>
        (lower (issue_category i) = ''styling'' \<longrightarrow> issue_tier i = 5) \<and>
        (lower (issue_category i) = ''testing'' \<longrightarrow> issue_tier i = 6) \<and>
        (lower (issue_category i) = ''integration'' \<longrightarrow> issue_tier i = 7) \<and>
        (lower (issue_category i) \<notin> fst ` set CATEGORY_TIERS \<longrightarrow> issue_tier i = 4))"
proof -
  from build_plan_shape [OF assms, of mp now] obtain plan where
    p: "build_plan issues mp now = Inr plan"
       "sorted_wrt (<) (map tier (tiers plan))"
       "set (map tier (tiers plan)) = issue_tier ` set issues"
       "\<forall>t\<in>set (tiers plan). issue_ids t = ids_in_tier (tier t) issues \<and>
          description t = tier_description (tier t) \<and>
          sequential t = (tier t \<in> SEQUENTIAL_TIERS)"
    by blast
  have lands: "\<exists>t\<in>set (tiers plan). tier t = issue_tier i \<and> x \<in> set (issue_ids t)"
    if "i \<in> set issues" "i ''id'' = Some x" for i x
  proof -
    from that(1) p(3) have "issue_tier i \<in> set (map tier (tiers plan))" by simp
    then obtain t where t: "t \<in> set (tiers plan)" "tier t = issue_tier i" by auto
    from that t(2) have "x \<in> set (ids_in_tier (tier t) issues)"
      by (auto simp: in_ids_in_tier)
    with t p(4) show ?thesis by auto
  qed
  have shape: "\<forall>t\<in>set (tiers plan). issue_ids t = ids_in_tier (tier t) issues \<and>
        sequential t = (tier t = 1 \<or> tier t = 7)"
    using p(4) by (simp add: SEQUENTIAL_TIERS_def)
  have uniq: "\<exists>!t. t \<in> set (tiers plan) \<and> x \<in> set (issue_ids t)"
    if d: "distinct (map (\<lambda>i. i ''id'') issues)" and i: "i \<in> set issues" "i ''id'' = Some x" for i x
  proof -
    from lands [OF i] obtain t where t: "t \<in> set (tiers plan)" "tier t = issue_tier i"
      "x \<in> set (issue_ids t)" by blast
    have "u = t" if u: "u \<in> set (tiers plan)" "x \<in> set (issue_ids u)" for u
    proof -
      from u p(4) have "x \<in> set (ids_in_tier (tier u) issues)" by auto
      then obtain j where j: "j \<in> set issues" "j ''id'' = Some x" "issue_tier j = tier u"
        by (auto simp: in_ids_in_tier)
      from d have inj: "inj_on (\<lambda>i. i ''id'') (set issues)" by (simp add: distinct_map)
      from inj_onD [OF inj, of j i] i j(1,2) have "j = i" by simp
      with j(3) t(2) have e: "tier u = tier t" by simp
      from p(2) have "distinct (map tier (tiers plan))" by (simp add: strict_sorted_iff)
      then have "inj_on tier (set (tiers plan))" by (simp add: distinct_map)
      with e u(1) t(1) show ?thesis by (auto dest: inj_onD)
    qed
    with t show ?thesis by blast
  qed
  have c3: "\<forall>i\<in>set issues. \<forall>x. i ''id'' = Some x \<longrightarrow>
        (\<exists>t\<in>set (tiers plan). tier t = issue_tier i \<and> x \<in> set (issue_ids t))"
    by (intro ballI allI impI) (rule lands)
  have c5: "distinct (map (\<lambda>i. i ''id'') issues) \<longrightarrow>
        (\<forall>i\<in>set issues. \<forall>x. i ''id'' = Some x \<longrightarrow>
           (\<exists>!t. t \<in> set (tiers plan) \<and> x \<in> set (issue_ids t)))"
    by (intro ballI allI impI) (rule uniq)
  have cj: "build_plan issues mp now = Inr plan \<and>
     sorted_wrt (<) (map tier (tiers plan)) \<and>
     (\<forall>i\<in>set issues. \<forall>x. i ''id'' = Some x \<longrightarrow>
        (\<exists>t\<in>set (tiers plan). tier t = issue_tier i \<and> x \<in> set (issue_ids t))) \<and>
     (\<forall>t\<in>set (tiers plan). issue_ids t = ids_in_tier (tier t) issues \<and>
        sequential t = (tier t = 1 \<or> tier t = 7)) \<and>
     (distinct (map (\<lambda>i. i ''id'') issues) \<longrightarrow>
        (\<forall>i\<in>set issues. \<forall>x. i ''id'' = Some x \<longrightarrow>
           (\<exists>!t. t \<in> set (tiers plan) \<and> x \<in> set (issue_ids t))))"
    using p(1) p(2) c3 shape c5 by (intro conjI) assumption+
  have ex: "\<exists>plan. build_plan issues mp now = Inr plan \<and>
     sorted_wrt (<) (map tier (tiers plan)) \<and>
     (\<forall>i\<in>set issues. \<forall>x. i ''id'' = Some x \<longrightarrow>
        (\<exists>t\<in>set (tiers plan). tier t = issue_tier i \<and> x \<in> set (issue_ids t))) \<and>
     (\<forall>t\<in>set (tiers plan). issue_ids t = ids_in_tier (tier t) issues \<and>
        sequential t = (tier t = 1 \<or> tier t = 7)) \<and>
     (distinct (map (\<lambda>i. i ''id'') issues) \<longrightarrow>
        (\<forall>i\<in>set issues. \<forall>x. i ''id'' = Some x \<longrightarrow>
           (\<exists>!t. t \<in> set (tiers plan) \<and> x \<in> set (issue_ids t))))"
    by (rule exI [where x = plan]) (rule cj)
  have tbl: "\<forall>i. (lower (issue_category i) = ''setup'' \<longrightarrow> issue_tier i = 1) \<and>
        (lower (issue_category i) = ''backend'' \<longrightarrow> issue_tier i = 2) \<and>
        (lower (issue_category i) = ''frontend'' \<longrightarrow> issue_tier i = 3) \<and>
        (lower (issue_category i) = ''a2ui-catalog'' \<longrightarrow> issue_tier i = 3) \<and>
        (lower (issue_category i) = ''feature'' \<longrightarrow> issue_tier i = 4) \<and>
        (lower (issue_category i) = ''styling'' \<longrightarrow> issue_tier i = 5) \<and>
        (lower (issue_category i) = ''testing'' \<longrightarrow> issue_tier i = 6) \<and>
        (lower (issue_category i) = ''integration'' \<longrightarrow> issue_tier i = 7) \<and>
        (lower (issue_category i) \<notin> fst ` set CATEGORY_TIERS \<longrightarrow> issue_tier i = 4)"
    by (intro allI) (rule issue_tier_table)
  from ex tbl show ?thesis by (rule conjI)
qed

lemma build_plan_S1:
  "build_plan issues_S1 2 ''2026-01-01T00:00:00+00:00'' = Inr plan_S1"
  by (simp add: build_plan_def issues_S1_def issue_tier_def issue_category_def lower_def
     lower_char_def ascii_uppercase_def ascii_lowercase_def CATEGORY_TIERS_def DEFAULT_TIER_def
     ParallelPlan_init_def tier_description_def TIER_DESCRIPTIONS_def SEQUENTIAL_TIERS_def
     tier_size_def plan_S1_def tier1_S1_def tier2_S1_def tier3_S1_def tier7_S1_def)

theorem build_plan_tiers_witness:
  "build_plan issues_S1 2 ''2026-01-01T00:00:00+00:00'' = Inr plan_S1 \<and>
   sorted_wrt (<) (map tier (tiers plan_S1)) \<and>
   (\<exists>!t. t \<in> set (tiers plan_S1) \<and> ''T-5'' \<in> set (issue_ids t)) \<and>
   issue_ids tier3_S1 = ids_in_tier 3 issues_S1"
proof -
  let ?i5 = "[''id'' \<mapsto> ''T-5'', ''category'' \<mapsto> ''a2ui-catalog'']"
  have h: "\<forall>i\<in>set issues_S1. i ''id'' \<noteq> None"
    by (simp add: issues_S1_def)
  have d: "distinct (map (\<lambda>i. i ''id'') issues_S1)"
    by (simp add: issues_S1_def)
  have m: "?i5 \<in> set issues_S1"
    by (simp add: issues_S1_def)
  have m': "?i5 ''id'' = Some ''T-5''"
    by simp
  have t: "tier3_S1 \<in> set (tiers plan_S1)"
    by (simp add: plan_S1_def)
  have t': "tier tier3_S1 = 3"
    by (simp add: tier3_S1_def)
  from build_plan_tiers [OF h, of 2 "''2026-01-01T00:00:00+00:00''"]
  have "\<exists>plan. build_plan issues_S1 2 ''2026-01-01T00:00:00+00:00'' = Inr plan \<and>
     sorted_wrt (<) (map tier (tiers plan)) \<and>
     (\<forall>i\<in>set issues_S1. \<forall>x. i ''id'' = Some x \<longrightarrow>
        (\<exists>t\<in>set (tiers plan). tier t = issue_tier i \<and> x \<in> set (issue_ids t))) \<and>
     (\<forall>t\<in>set (tiers plan). issue_ids t = ids_in_tier (tier t) issues_S1 \<and>
        sequential t = (tier t = 1 \<or> tier t = 7)) \<and>
     (distinct (map (\<lambda>i. i ''id'') issues_S1) \<longrightarrow>
        (\<forall>i\<in>set issues_S1. \<forall>x. i ''id'' = Some x \<longrightarrow>
           (\<exists>!t. t \<in> set (tiers plan) \<and> x \<in> set (issue_ids t))))"
    by (rule conjunct1)
  then obtain plan where
    q1: "build_plan issues_S1 2 ''2026-01-01T00:00:00+00:00'' = Inr plan" and
    q2: "sorted_wrt (<) (map tier (tiers plan))" and
    q4: "\<forall>t\<in>set (tiers plan). issue_ids t = ids_in_tier (tier t) issues_S1 \<and>
        sequential t = (tier t = 1 \<or> tier t = 7)" and
    q5: "distinct (map (\<lambda>i. i ''id'') issues_S1) \<longrightarrow>
        (\<forall>i\<in>set issues_S1. \<forall>x. i ''id'' = Some x \<longrightarrow>
           (\<exists>!t. t \<in> set (tiers plan) \<and> x \<in> set (issue_ids t)))"
    by (elim exE conjE)
  from q1 build_plan_S1 have e: "plan = plan_S1" by simp
  have a: "sorted_wrt (<) (map tier (tiers plan_S1))"
    using q2 unfolding e .
  from q5 d have "\<forall>i\<in>set issues_S1. \<forall>x. i ''id'' = Some x \<longrightarrow>
           (\<exists>!t. t \<in> set (tiers plan_S1) \<and> x \<in> set (issue_ids t))"
    unfolding e by (rule mp)
  from bspec [OF this m] have "?i5 ''id'' = Some ''T-5'' \<longrightarrow>
           (\<exists>!t. t \<in> set (tiers plan_S1) \<and> ''T-5'' \<in> set (issue_ids t))"
    by (rule spec)
  from mp [OF this m'] have b: "\<exists>!t. t \<in> set (tiers plan_S1) \<and> ''T-5'' \<in> set (issue_ids t)" .
  from q4 have "\<forall>t\<in>set (tiers plan_S1). issue_ids t = ids_in_tier (tier t) issues_S1 \<and>
        sequential t = (tier t = 1 \<or> tier t = 7)"
    unfolding e .
  from bspec [OF this t] have c: "issue_ids tier3_S1 = ids_in_tier 3 issues_S1"
    unfolding t' by (rule conjunct1)
  from build_plan_S1 a b c show ?thesis by (intro conjI)
qed

text \<open>
  The claim as the spec states it, for any issue list, fails where two issues share an
  identifier and differ in category: the identifier is in two tiers.
\<close>

theorem build_plan_shared_id_two_tiers:
  "build_plan shared_id_issues 2 ''2026-01-01T00:00:00+00:00'' =
     Inr \<lparr>tiers =
        [\<lparr>tier = 1, issue_ids = [''T-1''], description = ''setup (project foundation)'',
           sequential = True\<rparr>,
         \<lparr>tier = 2, issue_ids = [''T-1''], description = ''backend (API and data layer)'',
           sequential = False\<rparr>],
        max_parallelism = 2, created_at = ''2026-01-01T00:00:00+00:00'', total_issues = 2\<rparr>"
  by (simp add: build_plan_def shared_id_issues_def issue_tier_def issue_category_def lower_def
     lower_char_def ascii_uppercase_def ascii_lowercase_def CATEGORY_TIERS_def DEFAULT_TIER_def
     ParallelPlan_init_def tier_description_def TIER_DESCRIPTIONS_def SEQUENTIAL_TIERS_def
     tier_size_def)

section \<open>Properties of plan persistence\<close>

lemma map_err_as_str: "map_err as_str (map JStr ids) = Inr ids"
  by (induction ids) (simp_all add: then_do_def)

lemma tier_round_trip: "tier_from_dict (tier_to_dict t) = Inr t"
  by (simp add: tier_from_dict_def tier_to_dict_def then_do_def getitem_def map_err_as_str)

lemma tiers_round_trip: "map_err tier_from_dict (map tier_to_dict ts) = Inr ts"
  by (induction ts) (simp_all add: then_do_def tier_round_trip)

lemma ParallelPlan_init_self:
  "total_issues p = sum_list (map tier_size (tiers p)) \<Longrightarrow>
   ParallelPlan_init (tiers p) (max_parallelism p) (created_at p) = p"
  by (simp add: ParallelPlan_init_def)

lemma from_dict_to_dict:
  "from_dict (to_dict p) = Inr (ParallelPlan_init (tiers p) (max_parallelism p) (created_at p))"
  by (simp add: from_dict_def to_dict_def then_do_def getitem_def tiers_round_trip)

text \<open>
  C4: a plan whose \<open>total_issues\<close> is the sum of its tiers' sizes, which is what the
  constructor's \<open>__post_init__\<close> makes of every plan, comes back from
  \<open>from_dict (to_dict p)\<close> and from saving and loading as the same plan, field by field:
  tiers (index, description, sequential flag, identifier list in order), max_parallelism,
  created_at and total_issues.
\<close>

theorem plan_round_trip:
  "total_issues (ParallelPlan_init ts mp ca) = sum_list (map tier_size (tiers (ParallelPlan_init ts mp ca))) \<and>
   (total_issues p = sum_list (map tier_size (tiers p)) \<longrightarrow>
      from_dict (to_dict p) = Inr p \<and>
      load_plan dir (snd (save_plan p dir fs)) = Inr (Some p))"
proof (intro conjI impI)
  show "total_issues (ParallelPlan_init ts mp ca) =
      sum_list (map tier_size (tiers (ParallelPlan_init ts mp ca)))"
    by (simp add: ParallelPlan_init_def)
next
  assume inv: "total_issues p = sum_list (map tier_size (tiers p))"
  show rt: "from_dict (to_dict p) = Inr p"
    using from_dict_to_dict [of p] ParallelPlan_init_self [OF inv] by simp
  show "load_plan dir (snd (save_plan p dir fs)) = Inr (Some p)"
    by (simp add: load_plan_def save_plan_def then_do_def rt)
qed

theorem plan_round_trip_witness:
  "from_dict (to_dict plan_S1) = Inr plan_S1 \<and>
   load_plan ''generations/app'' (snd (save_plan plan_S1 ''generations/app'' Map.empty)) =
     Inr (Some plan_S1)"
proof -
  have "total_issues plan_S1 = sum_list (map tier_size (tiers plan_S1))"
    by (simp add: plan_S1_def tier_size_def tier1_S1_def tier2_S1_def tier3_S1_def tier7_S1_def)
  with plan_round_trip [of "[]" 0 "''''" plan_S1 "''generations/app''" Map.empty]
  show ?thesis by blast
qed

section \<open>Properties of the waves\<close>

lemma range_from_stop: "s = 0 \<or> n \<le> i \<Longrightarrow> range_from i n s = []"
  by (subst range_from.simps) simp

lemma range_from_step: "0 < s \<Longrightarrow> i < n \<Longrightarrow> range_from i n s = i # range_from (i + s) n s"
  by (subst range_from.simps) simp

lemma wave_workers_enumerate: "wave_workers w = enumerate (fst w) (snd w)"
proof -
  have "map (\<lambda>(i, x). (k + i, x)) (enumerate m xs) = enumerate (k + m) xs" for k m and xs :: "'a list"
    by (induction xs arbitrary: m) simp_all
  from this [of "fst w" 0 "snd w"] show ?thesis
    by (simp add: wave_workers_def)
qed

lemma take_drop_split: "take s (drop i xs) @ drop (i + s) xs = drop i xs"
proof -
  have "drop (i + s) xs = drop s (drop i xs)" by (simp add: add.commute)
  then show ?thesis by (simp only: append_take_drop_id)
qed

lemma range_from_concat:
  "0 < s \<Longrightarrow>
   concat (map (\<lambda>ws. take s (drop ws xs)) (range_from i (length xs) s)) = drop i xs"
proof (induction i "length xs" s rule: range_from.induct)
  case (1 i s)
  show ?case
  proof (cases "length xs \<le> i")
    case True
    then show ?thesis by (simp add: range_from_stop)
  next
    case False
    with 1 have "concat (map (\<lambda>ws. take s (drop ws xs)) (range_from (i + s) (length xs) s))
        = drop (i + s) xs" by simp
    with False "1.prems" show ?thesis
      by (simp add: range_from_step take_drop_split)
  qed
qed

lemma range_from_workers:
  "0 < s \<Longrightarrow>
   concat (map (\<lambda>ws. enumerate ws (take s (drop ws xs))) (range_from i (length xs) s))
     = enumerate i (drop i xs)"
proof (induction i "length xs" s rule: range_from.induct)
  case (1 i s)
  show ?case
  proof (cases "length xs \<le> i")
    case True
    then show ?thesis by (simp add: range_from_stop)
  next
    case False
    with 1 have ih: "concat (map (\<lambda>ws. enumerate ws (take s (drop ws xs))) (range_from (i + s) (length xs) s))
        = enumerate (i + s) (drop (i + s) xs)" by simp
    have "enumerate i (take s (drop i xs) @ drop (i + s) xs) =
        enumerate i (take s (drop i xs)) @ enumerate (i + length (take s (drop i xs))) (drop (i + s) xs)"
      by (rule enumerate_append_eq)
    then have e: "enumerate i (drop i xs) =
        enumerate i (take s (drop i xs)) @ enumerate (i + length (take s (drop i xs))) (drop (i + s) xs)"
      by (simp only: take_drop_split)
    have "enumerate (i + length (take s (drop i xs))) (drop (i + s) xs)
        = enumerate (i + s) (drop (i + s) xs)"
    proof (cases "i + s \<le> length xs")
      case True
      then have "length (take s (drop i xs)) = s" by simp
      then show ?thesis by simp
    next
      case False
      then show ?thesis by simp
    qed
    with e ih False "1.prems" show ?thesis
      by (simp add: range_from_step)
  qed
qed

lemma range_from_members:
  "0 < s \<Longrightarrow> ws \<in> set (range_from i n s) \<Longrightarrow> i \<le> ws \<and> ws < n"
proof (induction i n s rule: range_from.induct)
  case (1 i n s)
  show ?case
  proof (cases "n \<le> i")
    case True
    with "1.prems" show ?thesis by (simp add: range_from_stop)
  next
    case False
    with "1.prems" have "ws = i \<or> ws \<in> set (range_from (i + s) n s)"
      by (simp add: range_from_step)
    then show ?thesis
    proof
      assume "ws = i" with False show ?thesis by simp
    next
      assume "ws \<in> set (range_from (i + s) n s)"
      with 1 False have "i + s \<le> ws \<and> ws < n" by simp
      then show ?thesis by simp
    qed
  qed
qed

lemma range_from_multiples:
  "0 < s \<Longrightarrow> range_from i n s = map (\<lambda>k. i + k * s) [0..<length (range_from i n s)]"
proof (induction i n s rule: range_from.induct)
  case (1 i n s)
  show ?case
  proof (cases "n \<le> i")
    case True
    then show ?thesis by (simp add: range_from_stop)
  next
    case False
    with 1 have ih: "range_from (i + s) n s =
        map (\<lambda>k. i + s + k * s) [0..<length (range_from (i + s) n s)]" by simp
    let ?m = "length (range_from (i + s) n s)"
    have st: "range_from i n s = i # range_from (i + s) n s"
      using False "1.prems" by (simp add: range_from_step)
    have "map (\<lambda>k. i + k * s) [0..<Suc ?m] = (i + 0 * s) # map (\<lambda>k. i + Suc k * s) [0..<?m]"
      by (simp only: upt_conv_Cons [of 0 "Suc ?m"] zero_less_Suc list.map map_Suc_upt [symmetric] map_map o_def)
    also have "\<dots> = i # map (\<lambda>k. i + s + k * s) [0..<?m]"
      by (simp add: add.assoc)
    finally have "map (\<lambda>k. i + k * s) [0..<length (range_from i n s)] = i # range_from (i + s) n s"
      using ih st by simp
    with st show ?thesis by simp
  qed
qed

text \<open>
  C7: for \<open>max_workers \<ge> 1\<close> the waves of a tier, concatenated in order, are the tier's issue
  list; every wave is non-empty, has at most \<open>max_workers\<close> issues and is the slice of the
  list at its \<open>wave_start\<close>; the wave starts are the multiples of \<open>max_workers\<close>; the
  worker index of an issue is \<open>wave_start\<close> plus its position in the wave, which over the
  whole tier is the issue's position in the tier's list; and a wave spawns at most
  \<open>max_workers\<close> workers.
\<close>

theorem tier_waves_partition:
  assumes "1 \<le> max_workers"
  shows "\<exists>waves. tier_waves tier_issues max_workers = Inr waves \<and>
      concat (map snd waves) = tier_issues \<and>
      (\<forall>w\<in>set waves. snd w \<noteq> [] \<and> int (length (snd w)) \<le> max_workers \<and>
          snd w = take (nat max_workers) (drop (fst w) tier_issues) \<and>
          wave_workers w = enumerate (fst w) (snd w) \<and>
          int (length (spawn_tasks create_ok w)) \<le> max_workers) \<and>
      map fst waves = map (\<lambda>k. k * nat max_workers) [0..<length waves] \<and>
      concat (map wave_workers waves) = enumerate 0 tier_issues"
proof -
  define s where "s = nat max_workers"
  define R where "R = range_from 0 (length tier_issues) s"
  define W where "W = map (\<lambda>ws. (ws, take s (drop ws tier_issues))) R"
  from assms have s: "0 < s" and ms: "max_workers = int s" by (simp_all add: s_def)
  have 1: "tier_waves tier_issues max_workers = Inr W"
    using assms by (simp add: tier_waves_def wave_starts_def W_def R_def s_def)
  have 2: "concat (map snd W) = tier_issues"
    using range_from_concat [OF s, of tier_issues 0] by (simp add: W_def R_def o_def)
  have 3: "snd w \<noteq> [] \<and> int (length (snd w)) \<le> max_workers \<and>
          snd w = take (nat max_workers) (drop (fst w) tier_issues) \<and>
          wave_workers w = enumerate (fst w) (snd w) \<and>
          int (length (spawn_tasks create_ok w)) \<le> max_workers" if "w \<in> set W" for w
  proof -
    from that obtain ws where ws: "ws \<in> set R" "w = (ws, take s (drop ws tier_issues))"
      by (auto simp: W_def)
    from range_from_members [OF s] ws(1) have lt: "ws < length tier_issues"
      by (simp add: R_def)
    have a: "snd w \<noteq> []" using ws(2) lt s by simp
    have b: "int (length (snd w)) \<le> max_workers" using ws(2) by (simp add: ms)
    have c: "snd w = take (nat max_workers) (drop (fst w) tier_issues)"
      using ws(2) by (simp add: s_def)
    have "length (spawn_tasks create_ok w) \<le> length (wave_workers w)"
      unfolding spawn_tasks_def by (rule length_filter_le)
    also have "\<dots> = length (snd w)" by (simp add: wave_workers_def)
    finally have d: "int (length (spawn_tasks create_ok w)) \<le> max_workers"
      using b by simp
    from a b c d wave_workers_enumerate [of w] show ?thesis by (intro conjI)
  qed
  have 4: "map fst W = map (\<lambda>k. k * nat max_workers) [0..<length W]"
    using range_from_multiples [OF s, of 0 "length tier_issues"]
    by (simp add: W_def R_def o_def s_def)
  have "concat (map wave_workers W) =
      concat (map (\<lambda>ws. enumerate ws (take s (drop ws tier_issues))) R)"
    by (simp add: W_def o_def wave_workers_enumerate)
  also have "\<dots> = enumerate 0 tier_issues"
    using range_from_workers [OF s, of tier_issues 0] by (simp add: R_def)
  finally have 5: "concat (map wave_workers W) = enumerate 0 tier_issues" .
  have all3: "\<forall>w\<in>set W. snd w \<noteq> [] \<and> int (length (snd w)) \<le> max_workers \<and>
          snd w = take (nat max_workers) (drop (fst w) tier_issues) \<and>
          wave_workers w = enumerate (fst w) (snd w) \<and>
          int (length (spawn_tasks create_ok w)) \<le> max_workers"
    by (intro ballI) (rule 3)
  have cj: "tier_waves tier_issues max_workers = Inr W \<and>
      concat (map snd W) = tier_issues \<and>
      (\<forall>w\<in>set W. snd w \<noteq> [] \<and> int (length (snd w)) \<le> max_workers \<and>
          snd w = take (nat max_workers) (drop (fst w) tier_issues) \<and>
          wave_workers w = enumerate (fst w) (snd w) \<and>
          int (length (spawn_tasks create_ok w)) \<le> max_workers) \<and>
      map fst W = map (\<lambda>k. k * nat max_workers) [0..<length W] \<and>
      concat (map wave_workers W) = enumerate 0 tier_issues"
    using 1 2 all3 4 5 by (intro conjI) assumption+
  show ?thesis by (rule exI [where x = W]) (rule cj)
qed

lemma tier_waves_five:
  "tier_waves five_issues 2 =
     Inr [(0, [''T-1'', ''T-2'']), (2, [''T-3'', ''T-4'']), (4, [''T-5''])]"
  by (simp add: tier_waves_def wave_starts_def five_issues_def range_from_step range_from_stop)

theorem tier_waves_partition_witness:
  "tier_waves five_issues 2 =
     Inr [(0, [''T-1'', ''T-2'']), (2, [''T-3'', ''T-4'']), (4, [''T-5''])] \<and>
   map wave_workers [(0, [''T-1'', ''T-2'']), (2, [''T-3'', ''T-4'']), (4, [''T-5''])] =
     [[(0, ''T-1''), (1, ''T-2'')], [(2, ''T-3''), (3, ''T-4'')], [(4, ''T-5'')]] \<and>
   concat (map wave_workers [(0, [''T-1'', ''T-2'']), (2, [''T-3'', ''T-4'']), (4, [''T-5''])]) =
     enumerate 0 five_issues"
proof -
  have h: "(1::int) \<le> 2" by simp
  from tier_waves_partition [OF h, of five_issues "\<lambda>worker_index issue. True"]
  obtain waves where w: "tier_waves five_issues 2 = Inr waves"
    and c: "concat (map wave_workers waves) = enumerate 0 five_issues"
    by (elim exE conjE)
  from w tier_waves_five have e: "waves = [(0, [''T-1'', ''T-2'']), (2, [''T-3'', ''T-4'']), (4, [''T-5''])]"
    by simp
  have m: "map wave_workers [(0, [''T-1'', ''T-2'']), (2, [''T-3'', ''T-4'']), (4, [''T-5''])] =
     [[(0, ''T-1''), (1, ''T-2'')], [(2, ''T-3''), (3, ''T-4'')], [(4, ''T-5'')]]"
    by (simp add: wave_workers_def)
  from tier_waves_five m c [unfolded e] show ?thesis by (intro conjI)
qed

section \<open>Properties of the job queue\<close>

lemma swap_in_same:
  "spec_source = APP_SPEC_PATH E \<Longrightarrow> swap_in E spec_source fs = Inr (fs, False)"
  by (simp add: swap_in_def)

lemma swap_in_flag:
  assumes "swap_in E spec_source fs = Inr (fs1, sw)"
  shows "sw = (spec_source \<noteq> APP_SPEC_PATH E)"
proof (cases "spec_source = APP_SPEC_PATH E")
  case True
  with assms show ?thesis by (simp add: swap_in_def)
next
  case False
  with assms show ?thesis
    by (auto simp: swap_in_def split: sum.splits prod.splits if_splits)
qed



lemma swap_in_other:
  assumes "spec_source \<noteq> APP_SPEC_PATH E" and "fs spec_source = Some b"
    and "\<forall>op f. os_failure E op f = None"
  shows "swap_in E spec_source fs =
     Inr ((case fs (APP_SPEC_PATH E) of
             None \<Rightarrow> fs(APP_SPEC_PATH E \<mapsto> b)
           | Some a \<Rightarrow> (fs(backup_path E \<mapsto> a))
                        (APP_SPEC_PATH E \<mapsto> (if spec_source = backup_path E then a else b))),
          True)"
  using assms by (cases "fs (APP_SPEC_PATH E)") (auto simp: swap_in_def copy2_def)

lemma restore_spec_ok:
  assumes "\<forall>op f. os_failure E op f = None"
  shows "restore_spec E spec_swapped fs =
     Inr (if spec_swapped \<and> fs (backup_path E) \<noteq> None
          then (fs(APP_SPEC_PATH E := fs (backup_path E)))(backup_path E := None)
          else if spec_swapped then fs(APP_SPEC_PATH E := None) else fs)"
  using assms
  by (auto simp: restore_spec_def move_def unlink_def APP_SPEC_PATH_def backup_path_def)

lemma leave_job_fst: "fst (leave_job E sw j f r) = j"
  by (simp add: leave_job_def split: sum.splits prod.splits)

lemma leave_job_files:
  "fst (snd (leave_job E sw j f r)) =
     (case restore_spec E sw f of Inl (e, f') \<Rightarrow> f' | Inr f' \<Rightarrow> f')"
  by (simp add: leave_job_def split: sum.splits prod.splits)

lemma leave_job_end:
  "snd (snd (leave_job E sw j f r)) =
     (case restore_spec E sw f of
        Inl (e, f') \<Rightarrow> Error_propagated e
      | Inr f' \<Rightarrow> if r then Interrupt_reraised else Returned)"
  by (simp add: leave_job_def split: sum.splits prod.splits)


lemma run_job_launch:
  assumes "fs (in_harness E (job_spec_path job)) \<noteq> None"
    and "swap_in E (in_harness E (job_spec_path job)) fs = Inr (fs1, sw)"
  shows "run_job E job False fs =
     (case launch E (job\<lparr>job_project_dir := Some (HARNESS_DIR E @ ''/generations/'' @ job_id job)\<rparr>)
             (build_command E (job\<lparr>job_project_dir := Some (HARNESS_DIR E @ ''/generations/'' @ job_id job)\<rparr>))
             fs1 of
        (job', fs2, reraised) \<Rightarrow> leave_job E sw job' fs2 reraised)"
proof -
  from assms(1) obtain b where b: "fs (in_harness E (job_spec_path job)) = Some b" by blast
  show ?thesis
    by (simp add: run_job_def Let_def b assms(2))
qed


lemma launch_files:
  "fst (snd (launch E job cmd fs)) = snd (subprocess_run E cmd fs)"
proof -
  obtain out fs' where r: "subprocess_run E cmd fs = (out, fs')"
    by (cases "subprocess_run E cmd fs")
  then show ?thesis
    by (cases out) (simp_all add: launch_def Let_def)
qed

lemma launch_reraised:
  "snd (snd (launch E job cmd fs)) = (fst (subprocess_run E cmd fs) = KeyboardInterrupt)"
proof -
  obtain out fs' where r: "subprocess_run E cmd fs = (out, fs')"
    by (cases "subprocess_run E cmd fs")
  then show ?thesis
    by (cases out) (simp_all add: launch_def Let_def)
qed

lemma run_job_launched:
  assumes "fs (in_harness E (job_spec_path job)) \<noteq> None"
    and "swap_in E (in_harness E (job_spec_path job)) fs = Inr (fs1, sw)"
  shows "fst (run_job E job False fs) =
     fst (launch E (job\<lparr>job_project_dir := Some (HARNESS_DIR E @ ''/generations/'' @ job_id job)\<rparr>)
             (build_command E (job\<lparr>job_project_dir := Some (HARNESS_DIR E @ ''/generations/'' @ job_id job)\<rparr>))
             (files_at_launch E job fs))"
    and "snd (snd (run_job E job False fs)) =
     (case restore_after E job fs of
        Inl (e, f') \<Rightarrow> Error_propagated e
      | Inr f' \<Rightarrow> if child_outcome E job fs = KeyboardInterrupt then Interrupt_reraised else Returned)"
    and "fst (snd (run_job E job False fs)) =
     (case restore_after E job fs of Inl (e, f') \<Rightarrow> f' | Inr f' \<Rightarrow> f')"
proof -
  let ?job0 = "job\<lparr>job_project_dir := Some (HARNESS_DIR E @ ''/generations/'' @ job_id job)\<rparr>"
  let ?cmd = "build_command E ?job0"
  have fl: "files_at_launch E job fs = fs1"
    by (simp add: files_at_launch_def assms(2))
  have ra: "restore_after E job fs = restore_spec E sw (snd (subprocess_run E ?cmd fs1))"
    by (simp add: restore_after_def assms(2))
  have co: "child_outcome E job fs = fst (subprocess_run E ?cmd fs1)"
    by (simp add: child_outcome_def fl)
  obtain j f2 r where L: "launch E ?job0 ?cmd fs1 = (j, f2, r)"
    by (cases "launch E ?job0 ?cmd fs1")
  from launch_files [of E ?job0 ?cmd fs1] L
  have f2: "f2 = snd (subprocess_run E ?cmd fs1)" by simp
  from launch_reraised [of E ?job0 ?cmd fs1] L
  have r: "r = (fst (subprocess_run E ?cmd fs1) = KeyboardInterrupt)" by simp
  have rj: "run_job E job False fs = leave_job E sw j f2 r"
    unfolding run_job_launch [where fs = fs and E = E and job = job, OF assms] L by simp
  show "fst (run_job E job False fs) = fst (launch E ?job0 ?cmd (files_at_launch E job fs))"
    unfolding rj leave_job_fst fl L by simp
  show "snd (snd (run_job E job False fs)) =
     (case restore_after E job fs of
        Inl (e, f') \<Rightarrow> Error_propagated e
      | Inr f' \<Rightarrow> if child_outcome E job fs = KeyboardInterrupt then Interrupt_reraised else Returned)"
    by (simp add: rj leave_job_end ra co f2 r)
  show "fst (snd (run_job E job False fs)) =
     (case restore_after E job fs of Inl (e, f') \<Rightarrow> f' | Inr f' \<Rightarrow> f')"
    by (simp add: rj leave_job_files ra f2)
qed





text \<open>
  C10: when the identifier given to the \<open>add\<close> command is already the identifier of a job
  in the queue store, \<open>cmd_add\<close> returns exit code 1 and leaves the world, the queue file
  included, exactly as it was: \<open>save_queue\<close> is not reached and no job is appended.
\<close>

theorem cmd_add_duplicate_rejected:
  assumes "arg_id args \<in> set (map job_id (qs_jobs (load_queue w)))"
  shows "fst (cmd_add E now args w) = 1 \<and> snd (cmd_add E now args w) = w \<and>
    load_queue (snd (cmd_add E now args w)) = load_queue w"
  using assms by (simp add: cmd_add_def Let_def)

theorem cmd_add_duplicate_rejected_witness:
  "fst (cmd_add env_ok ''2026-01-02T00:00:00+00:00'' args_metroplex world_one_job) = 1 \<and>
   snd (cmd_add env_ok ''2026-01-02T00:00:00+00:00'' args_metroplex world_one_job) = world_one_job"
proof -
  have "arg_id args_metroplex \<in> set (map job_id (qs_jobs (load_queue world_one_job)))"
    by (simp add: args_metroplex_def world_one_job_def load_queue_def job_b_def)
  from cmd_add_duplicate_rejected [OF this, of env_ok "''2026-01-02T00:00:00+00:00''"]
  show ?thesis by simp
qed

text \<open>
  C9 at a state of the files that the code can meet: there is no canonical spec file, and
  a backup file \<open>app_spec.txt.bak\<close> is left from an earlier run. The job runs and exits
  with code 0; afterwards the canonical spec file exists and holds the bytes of the old
  backup file, although there was no canonical spec file before the job.
\<close>

theorem run_job_stale_backup_restored:
  "files_stale_backup (APP_SPEC_PATH env_ok) = None \<and>
   files_at_launch env_ok job_b files_stale_backup (APP_SPEC_PATH env_ok) = Some ''spec B'' \<and>
   job_status (fst (run_job env_ok job_b False files_stale_backup)) = Completed \<and>
   fst (snd (run_job env_ok job_b False files_stale_backup)) (APP_SPEC_PATH env_ok) =
     Some ''old backup''"
  by (simp add: run_job_def in_harness_def is_absolute_def swap_in_def APP_SPEC_PATH_def
      backup_path_def copy2_def launch_def leave_job_def restore_spec_def move_def unlink_def
      files_at_launch_def env_ok_def job_b_def files_stale_backup_def Let_def)

lemma spec_paths_differ: "APP_SPEC_PATH E \<noteq> backup_path E"
  by (simp add: APP_SPEC_PATH_def backup_path_def)

lemma run_job_files:
  assumes "fs (in_harness E (job_spec_path job)) = Some b"
    and "\<forall>op f. os_failure E op f = None"
  shows "fst (snd (run_job E job False fs)) =
     (let sw = (in_harness E (job_spec_path job) \<noteq> APP_SPEC_PATH E);
          f = snd (subprocess_run E
                (build_command E (job\<lparr>job_project_dir := Some (HARNESS_DIR E @ ''/generations/'' @ job_id job)\<rparr>))
                (files_at_launch E job fs))
      in if sw \<and> f (backup_path E) \<noteq> None
         then (f(APP_SPEC_PATH E := f (backup_path E)))(backup_path E := None)
         else if sw then f(APP_SPEC_PATH E := None) else f)"
proof -
  let ?src = "in_harness E (job_spec_path job)"
  from assms(1) have ex: "fs ?src \<noteq> None" by simp
  have "\<exists>fs1. swap_in E ?src fs = Inr (fs1, ?src \<noteq> APP_SPEC_PATH E)"
  proof (cases "?src = APP_SPEC_PATH E")
    case True
    then show ?thesis by (simp add: swap_in_same)
  next
    case False
    from swap_in_other [of ?src E fs b, OF False assms(1) assms(2)] False show ?thesis
      by simp
  qed
  then obtain fs1 where s: "swap_in E ?src fs = Inr (fs1, ?src \<noteq> APP_SPEC_PATH E)" by blast
  have fl: "files_at_launch E job fs = fs1"
    by (simp add: files_at_launch_def s)
  have ra: "restore_after E job fs = restore_spec E (?src \<noteq> APP_SPEC_PATH E)
      (snd (subprocess_run E
         (build_command E (job\<lparr>job_project_dir := Some (HARNESS_DIR E @ ''/generations/'' @ job_id job)\<rparr>))
         fs1))"
    by (simp add: restore_after_def s)
  show ?thesis
    unfolding run_job_launched(3) [where fs = fs and E = E and job = job, OF ex s] ra
      restore_spec_ok [OF assms(2)] fl
    by (simp add: Let_def)
qed

text \<open>
  The swap and the restore of the canonical spec, for a job whose spec file exists, is
  neither the canonical spec file nor the backup file, whose child leaves the backup file
  alone, and when the operating system refuses no operation on the files: while the child
  runs the canonical file holds the bytes of the job's spec; afterwards it holds the bytes
  it had before the job when it existed, and is absent when neither it nor a backup file
  existed before the job. For a job whose spec file is the canonical file, the files after
  the job are the files the child left.
\<close>

theorem run_job_swap_restore:
  assumes "fs (in_harness E (job_spec_path job)) = Some b"
    and "in_harness E (job_spec_path job) \<noteq> backup_path E"
    and "\<forall>cmd f. snd (subprocess_run E cmd f) (backup_path E) = f (backup_path E)"
    and "\<forall>op f. os_failure E op f = None"
  shows "(in_harness E (job_spec_path job) \<noteq> APP_SPEC_PATH E \<longrightarrow>
      files_at_launch E job fs (APP_SPEC_PATH E) = Some b \<and>
      (\<forall>a. fs (APP_SPEC_PATH E) = Some a \<longrightarrow>
         fst (snd (run_job E job False fs)) (APP_SPEC_PATH E) = Some a) \<and>
      (fs (APP_SPEC_PATH E) = None \<and> fs (backup_path E) = None \<longrightarrow>
         fst (snd (run_job E job False fs)) (APP_SPEC_PATH E) = None)) \<and>
    (in_harness E (job_spec_path job) = APP_SPEC_PATH E \<longrightarrow>
      files_at_launch E job fs = fs \<and>
      fst (snd (run_job E job False fs)) =
        snd (subprocess_run E
          (build_command E (job\<lparr>job_project_dir := Some (HARNESS_DIR E @ ''/generations/'' @ job_id job)\<rparr>))
          fs))"
proof -
  let ?src = "in_harness E (job_spec_path job)"
  let ?cmd = "build_command E (job\<lparr>job_project_dir := Some (HARNESS_DIR E @ ''/generations/'' @ job_id job)\<rparr>)"
  note rf = run_job_files [where fs = fs and E = E and job = job, OF assms(1) assms(4)]
  have keep: "snd (subprocess_run E ?cmd f) (backup_path E) = f (backup_path E)" for f
    using assms(3) by blast
  have A: "files_at_launch E job fs (APP_SPEC_PATH E) = Some b \<and>
      (\<forall>a. fs (APP_SPEC_PATH E) = Some a \<longrightarrow>
         fst (snd (run_job E job False fs)) (APP_SPEC_PATH E) = Some a) \<and>
      (fs (APP_SPEC_PATH E) = None \<and> fs (backup_path E) = None \<longrightarrow>
         fst (snd (run_job E job False fs)) (APP_SPEC_PATH E) = None)"
    if ne: "?src \<noteq> APP_SPEC_PATH E"
  proof -
    note sw = swap_in_other [of ?src E fs b, OF ne assms(1) assms(4)]
    have fl: "files_at_launch E job fs =
        (case fs (APP_SPEC_PATH E) of
           None \<Rightarrow> fs(APP_SPEC_PATH E \<mapsto> b)
         | Some a \<Rightarrow> (fs(backup_path E \<mapsto> a))(APP_SPEC_PATH E \<mapsto> b))"
      using sw assms(2) by (cases "fs (APP_SPEC_PATH E)") (simp_all add: files_at_launch_def)
    have 1: "files_at_launch E job fs (APP_SPEC_PATH E) = Some b"
      unfolding fl by (cases "fs (APP_SPEC_PATH E)") simp_all
    have 2: "fst (snd (run_job E job False fs)) (APP_SPEC_PATH E) = Some a"
      if a: "fs (APP_SPEC_PATH E) = Some a" for a
    proof -
      from a have "files_at_launch E job fs (backup_path E) = Some a"
        unfolding fl using spec_paths_differ [of E] by simp
      with keep [of "files_at_launch E job fs"]
      have "snd (subprocess_run E ?cmd (files_at_launch E job fs)) (backup_path E) = Some a"
        by simp
      then show ?thesis
        unfolding rf using ne by (simp add: Let_def spec_paths_differ)
    qed
    have 3: "fst (snd (run_job E job False fs)) (APP_SPEC_PATH E) = None"
      if n: "fs (APP_SPEC_PATH E) = None \<and> fs (backup_path E) = None"
    proof -
      from n have "files_at_launch E job fs (backup_path E) = None"
        unfolding fl using spec_paths_differ [of E] by simp
      with keep [of "files_at_launch E job fs"]
      have "snd (subprocess_run E ?cmd (files_at_launch E job fs)) (backup_path E) = None"
        by simp
      then show ?thesis
        unfolding rf using ne by (simp add: Let_def)
    qed
    from 1 2 3 show ?thesis by blast
  qed
  have B: "files_at_launch E job fs = fs \<and>
      fst (snd (run_job E job False fs)) = snd (subprocess_run E ?cmd fs)"
    if eq: "?src = APP_SPEC_PATH E"
  proof -
    have f: "files_at_launch E job fs = fs"
      using eq by (simp add: files_at_launch_def swap_in_same)
    show ?thesis
      unfolding rf f using eq by (simp add: Let_def)
  qed
  from A B show ?thesis by blast
qed

theorem run_job_swap_restore_witness:
  "files_at_launch env_ok job_b files_ab (APP_SPEC_PATH env_ok) = Some ''spec B'' \<and>
   fst (snd (run_job env_ok job_b False files_ab)) (APP_SPEC_PATH env_ok) = Some ''spec A''"
proof -
  have 1: "files_ab (in_harness env_ok (job_spec_path job_b)) = Some ''spec B''"
    by (simp add: files_ab_def in_harness_def is_absolute_def env_ok_def job_b_def)
  have 2: "in_harness env_ok (job_spec_path job_b) \<noteq> backup_path env_ok"
    by (simp add: in_harness_def is_absolute_def env_ok_def job_b_def backup_path_def)
  have 3: "\<forall>cmd f. snd (subprocess_run env_ok cmd f) (backup_path env_ok) = f (backup_path env_ok)"
    by (simp add: env_ok_def)
  have 4: "in_harness env_ok (job_spec_path job_b) \<noteq> APP_SPEC_PATH env_ok"
    by (simp add: in_harness_def is_absolute_def env_ok_def job_b_def APP_SPEC_PATH_def)
  have 5: "files_ab (APP_SPEC_PATH env_ok) = Some ''spec A''"
    by (simp add: files_ab_def env_ok_def APP_SPEC_PATH_def)
  have 6: "\<forall>op f. os_failure env_ok op f = None"
    by (simp add: env_ok_def)
  from run_job_swap_restore [where fs = files_ab and E = env_ok and job = job_b, OF 1 2 3 6] 4 5
  show ?thesis by blast
qed


section \<open>Properties of the tracker client\<close>

lemma state_types_differ: "''completed'' \<noteq> ''canceled''" "''unknown'' \<noteq> ''completed''" "''unknown'' \<noteq> ''canceled''"
  by simp_all

lemma check_loop_step:
  "check_loop client i (x # rest) (C, X, m) =
     check_loop client (Suc i) rest
       (if status_state_type (get_issue_status (client i x) x) = ''completed'' then insert x C else C,
        if status_state_type (get_issue_status (client i x) x) = ''canceled'' then insert x X else X,
        m(x \<mapsto> get_issue_status (client i x) x))"
  by (simp add: Let_def COMPLETED_STATE_TYPES_def CANCELLED_STATE_TYPES_def)

lemma check_loop_sets:
  "check_loop client i ids (C, X, m) = (C', X', m') \<Longrightarrow>
     C' = C \<union> {x. \<exists>s. (x, s) \<in> set (zip ids (statuses client i ids)) \<and> status_state_type s = ''completed''} \<and>
     X' = X \<union> {x. \<exists>s. (x, s) \<in> set (zip ids (statuses client i ids)) \<and> status_state_type s = ''canceled''} \<and>
     dom m' = dom m \<union> set ids \<and>
     (\<forall>x. x \<notin> set ids \<longrightarrow> m' x = m x)"
proof (induction ids arbitrary: i C X m)
  case Nil
  then show ?case by simp
next
  case (Cons x rest)
  let ?s = "get_issue_status (client i x) x"
  let ?C = "if status_state_type ?s = ''completed'' then insert x C else C"
  let ?X = "if status_state_type ?s = ''canceled'' then insert x X else X"
  from Cons.prems have "check_loop client (Suc i) rest (?C, ?X, m(x \<mapsto> ?s)) = (C', X', m')"
    by (simp only: check_loop_step)
  from Cons.IH [OF this] have
    ih: "C' = ?C \<union> {y. \<exists>s. (y, s) \<in> set (zip rest (statuses client (Suc i) rest)) \<and> status_state_type s = ''completed''}"
        "X' = ?X \<union> {y. \<exists>s. (y, s) \<in> set (zip rest (statuses client (Suc i) rest)) \<and> status_state_type s = ''canceled''}"
        "dom m' = dom (m(x \<mapsto> ?s)) \<union> set rest"
        "\<forall>y. y \<notin> set rest \<longrightarrow> m' y = (m(x \<mapsto> ?s)) y"
    by blast+
  have 1: "C' = C \<union> {y. \<exists>s. (y, s) \<in> set (zip (x # rest) (statuses client i (x # rest))) \<and> status_state_type s = ''completed''}"
    unfolding ih(1) by auto
  have 2: "X' = X \<union> {y. \<exists>s. (y, s) \<in> set (zip (x # rest) (statuses client i (x # rest))) \<and> status_state_type s = ''canceled''}"
    unfolding ih(2) by auto
  have 3: "dom m' = dom m \<union> set (x # rest)"
    unfolding ih(3) by auto
  have 4: "\<forall>y. y \<notin> set (x # rest) \<longrightarrow> m' y = m y"
    using ih(4) by auto
  from 1 2 3 4 show ?case by (intro conjI)
qed

lemma check_loop_map:
  "check_loop client i ids (C, X, m) = (C', X', m') \<Longrightarrow> distinct ids \<Longrightarrow>
     (x, s) \<in> set (zip ids (statuses client i ids)) \<Longrightarrow> m' x = Some s"
proof (induction ids arbitrary: i C X m)
  case Nil
  then show ?case by simp
next
  case (Cons y rest)
  let ?s = "get_issue_status (client i y) y"
  let ?C = "if status_state_type ?s = ''completed'' then insert y C else C"
  let ?X = "if status_state_type ?s = ''canceled'' then insert y X else X"
  from Cons.prems(1) have step: "check_loop client (Suc i) rest (?C, ?X, m(y \<mapsto> ?s)) = (C', X', m')"
    by (simp only: check_loop_step)
  from Cons.prems(3) have "(x = y \<and> s = ?s) \<or> (x, s) \<in> set (zip rest (statuses client (Suc i) rest))"
    by simp
  then show ?case
  proof
    assume h: "x = y \<and> s = ?s"
    from Cons.prems(2) have "y \<notin> set rest" by simp
    with check_loop_sets [OF step] have "m' y = (m(y \<mapsto> ?s)) y" by blast
    with h show ?thesis by simp
  next
    assume "(x, s) \<in> set (zip rest (statuses client (Suc i) rest))"
    with Cons.IH [OF step] Cons.prems(2) show ?thesis by simp
  qed
qed

lemma length_statuses: "length (statuses client i ids) = length ids"
  by (induction ids arbitrary: i) simp_all

lemma statuses_nth:
  "k < length ids \<Longrightarrow> statuses client i ids ! k = get_issue_status (client (i + k) (ids ! k)) (ids ! k)"
proof (induction ids arbitrary: i k)
  case Nil
  then show ?case by simp
next
  case (Cons x xs)
  then show ?case by (cases k) simp_all
qed

lemma get_issue_status_raises:
  "status_state_type (get_issue_status (Raises e) x) = ''unknown''"
  by (simp add: get_issue_status_def)

text \<open>
  C5, as the code has it. With the API key set and a list of pairwise distinct
  identifiers, the check returns a completed set, a cancelled set and a status map such
  that: the map has an entry for exactly the identifiers of the list, namely what
  \<open>get_issue_status\<close> makes of that identifier's call; an identifier whose call raised
  is recorded with state type \<open>unknown\<close> and is in neither set; the completed set is
  exactly the identifiers whose recorded state type is \<open>completed\<close>, the cancelled set
  exactly those whose recorded state type is \<open>canceled\<close>; and the two sets are disjoint.
\<close>

theorem check_issue_statuses_fail_open:
  assumes "api_key \<noteq> None" and "api_key \<noteq> Some ''''" and "distinct ids"
  shows "\<exists>C X m. check_issue_statuses api_key client ids = Inr (C, X, m) \<and>
     dom m = set ids \<and>
     (\<forall>k<length ids. m (ids ! k) = Some (get_issue_status (client k (ids ! k)) (ids ! k))) \<and>
     (\<forall>k<length ids. \<forall>e. client k (ids ! k) = Raises e \<longrightarrow>
        (\<exists>s. m (ids ! k) = Some s \<and> status_state_type s = ''unknown'') \<and>
        ids ! k \<notin> C \<and> ids ! k \<notin> X) \<and>
     C = {x. \<exists>s. m x = Some s \<and> status_state_type s = ''completed''} \<and>
     X = {x. \<exists>s. m x = Some s \<and> status_state_type s = ''canceled''} \<and>
     C \<inter> X = {}"
proof -
  obtain C X m where r: "check_loop client 0 ids ({}, {}, Map.empty) = (C, X, m)"
    by (cases "check_loop client 0 ids ({}, {}, Map.empty)")
  let ?Z = "set (zip ids (statuses client 0 ids))"
  from check_loop_sets [OF r] have
    C: "C = {x. \<exists>s. (x, s) \<in> ?Z \<and> status_state_type s = ''completed''}" and
    X: "X = {x. \<exists>s. (x, s) \<in> ?Z \<and> status_state_type s = ''canceled''}" and
    d: "dom m = set ids"
    by simp_all
  have zm: "m x = Some s" if "(x, s) \<in> ?Z" for x s
    using check_loop_map [OF r assms(3) that] .
  have at: "(ids ! k, get_issue_status (client k (ids ! k)) (ids ! k)) \<in> ?Z" if "k < length ids" for k
  proof -
    from that have "zip ids (statuses client 0 ids) ! k = (ids ! k, statuses client 0 ids ! k)"
      by (simp add: length_statuses)
    moreover from that have "k < length (zip ids (statuses client 0 ids))"
      by (simp add: length_statuses)
    ultimately have "(ids ! k, statuses client 0 ids ! k) \<in> ?Z"
      by (metis nth_mem)
    with statuses_nth [OF that, of client 0] show ?thesis by simp
  qed
  have mz: "(x, s) \<in> ?Z" if "m x = Some s" for x s
  proof -
    from that d have "x \<in> set ids" by blast
    then obtain k where k: "k < length ids" "ids ! k = x"
      by (auto simp: in_set_conv_nth)
    from zm [OF at [OF k(1)]] k(2) that
    have "s = get_issue_status (client k (ids ! k)) (ids ! k)" by simp
    with at [OF k(1)] k(2) show ?thesis by simp
  qed
  have 1: "check_issue_statuses api_key client ids = Inr (C, X, m)"
    using assms(1,2) r by (simp add: check_issue_statuses_def)
  have 3: "\<forall>k<length ids. m (ids ! k) = Some (get_issue_status (client k (ids ! k)) (ids ! k))"
    using zm at by blast
  have 5: "C = {x. \<exists>s. m x = Some s \<and> status_state_type s = ''completed''}"
    unfolding C using zm mz by blast
  have 6: "X = {x. \<exists>s. m x = Some s \<and> status_state_type s = ''canceled''}"
    unfolding X using zm mz by blast
  have 7: "C \<inter> X = {}"
    unfolding 5 6 by (auto simp: state_types_differ)
  have 4: "\<forall>k<length ids. \<forall>e. client k (ids ! k) = Raises e \<longrightarrow>
        (\<exists>s. m (ids ! k) = Some s \<and> status_state_type s = ''unknown'') \<and>
        ids ! k \<notin> C \<and> ids ! k \<notin> X"
  proof (intro allI impI)
    fix k e assume k: "k < length ids" and e: "client k (ids ! k) = Raises e"
    from 3 k e have m: "m (ids ! k) = Some (get_issue_status (Raises e) (ids ! k))" by simp
    have u: "status_state_type (get_issue_status (Raises e) (ids ! k)) = ''unknown''"
      by (rule get_issue_status_raises)
    from m u have a: "\<exists>s. m (ids ! k) = Some s \<and> status_state_type s = ''unknown''" by blast
    from m u have b: "ids ! k \<notin> C" unfolding 5 by (simp add: state_types_differ)
    from m u have c: "ids ! k \<notin> X" unfolding 6 by (simp add: state_types_differ)
    from a b c show "(\<exists>s. m (ids ! k) = Some s \<and> status_state_type s = ''unknown'') \<and>
        ids ! k \<notin> C \<and> ids ! k \<notin> X" by (intro conjI)
  qed
  have cj: "check_issue_statuses api_key client ids = Inr (C, X, m) \<and>
     dom m = set ids \<and>
     (\<forall>k<length ids. m (ids ! k) = Some (get_issue_status (client k (ids ! k)) (ids ! k))) \<and>
     (\<forall>k<length ids. \<forall>e. client k (ids ! k) = Raises e \<longrightarrow>
        (\<exists>s. m (ids ! k) = Some s \<and> status_state_type s = ''unknown'') \<and>
        ids ! k \<notin> C \<and> ids ! k \<notin> X) \<and>
     C = {x. \<exists>s. m x = Some s \<and> status_state_type s = ''completed''} \<and>
     X = {x. \<exists>s. m x = Some s \<and> status_state_type s = ''canceled''} \<and>
     C \<inter> X = {}"
    using 1 d 3 4 5 6 7 by (intro conjI)
  show ?thesis
    by (rule exI [where x = C], rule exI [where x = X], rule exI [where x = m]) (rule cj)
qed

lemma check_second_fails:
  "fst (check_loop tracker_second_fails 0 [''T-1'', ''T-2'', ''T-3''] ({}, {}, Map.empty)) = {''T-1''} \<and>
   fst (snd (check_loop tracker_second_fails 0 [''T-1'', ''T-2'', ''T-3''] ({}, {}, Map.empty))) = {''T-3''}"
  by (simp add: tracker_second_fails_def answer_def get_issue_status_def get_or_def Let_def
      COMPLETED_STATE_TYPES_def CANCELLED_STATE_TYPES_def)

theorem check_issue_statuses_fail_open_witness:
  "\<exists>C X m. check_issue_statuses (Some ''arc_test_key'') tracker_second_fails
        [''T-1'', ''T-2'', ''T-3''] = Inr (C, X, m) \<and>
     C = {''T-1''} \<and> X = {''T-3''} \<and> dom m = {''T-1'', ''T-2'', ''T-3''} \<and>
     (\<exists>s. m ''T-2'' = Some s \<and> status_state_type s = ''unknown'') \<and> ''T-2'' \<notin> C \<and> ''T-2'' \<notin> X"
proof -
  have h1: "Some ''arc_test_key'' \<noteq> None" by simp
  have h2: "Some ''arc_test_key'' \<noteq> Some ''''" by simp
  have h3: "distinct [''T-1'', ''T-2'', ''T-3'']" by simp
  from check_issue_statuses_fail_open [OF h1 h2 h3, of tracker_second_fails]
  obtain C X m where
    r: "check_issue_statuses (Some ''arc_test_key'') tracker_second_fails [''T-1'', ''T-2'', ''T-3'']
          = Inr (C, X, m)" and
    d: "dom m = set [''T-1'', ''T-2'', ''T-3'']" and
    f: "\<forall>k<length [''T-1'', ''T-2'', ''T-3'']. \<forall>e.
          tracker_second_fails k ([''T-1'', ''T-2'', ''T-3''] ! k) = Raises e \<longrightarrow>
          (\<exists>s. m ([''T-1'', ''T-2'', ''T-3''] ! k) = Some s \<and> status_state_type s = ''unknown'') \<and>
          [''T-1'', ''T-2'', ''T-3''] ! k \<notin> C \<and> [''T-1'', ''T-2'', ''T-3''] ! k \<notin> X"
    by (elim exE conjE)
  from r have l: "check_loop tracker_second_fails 0 [''T-1'', ''T-2'', ''T-3''] ({}, {}, Map.empty) = (C, X, m)"
    by (simp add: check_issue_statuses_def)
  from check_second_fails have cx: "C = {''T-1''}" "X = {''T-3''}"
    unfolding l by simp_all
  have e: "tracker_second_fails 1 ([''T-1'', ''T-2'', ''T-3''] ! 1) = Raises ''Network error''"
    by (simp add: tracker_second_fails_def)
  have "(1::nat) < length [''T-1'', ''T-2'', ''T-3'']" by simp
  with f e have "(\<exists>s. m ([''T-1'', ''T-2'', ''T-3''] ! 1) = Some s \<and> status_state_type s = ''unknown'') \<and>
          [''T-1'', ''T-2'', ''T-3''] ! 1 \<notin> C \<and> [''T-1'', ''T-2'', ''T-3''] ! 1 \<notin> X"
    by blast
  then have u: "(\<exists>s. m ''T-2'' = Some s \<and> status_state_type s = ''unknown'') \<and> ''T-2'' \<notin> C \<and> ''T-2'' \<notin> X"
    by simp
  from d have d': "dom m = {''T-1'', ''T-2'', ''T-3''}" by simp
  have cj: "check_issue_statuses (Some ''arc_test_key'') tracker_second_fails
        [''T-1'', ''T-2'', ''T-3''] = Inr (C, X, m) \<and>
     C = {''T-1''} \<and> X = {''T-3''} \<and> dom m = {''T-1'', ''T-2'', ''T-3''} \<and>
     (\<exists>s. m ''T-2'' = Some s \<and> status_state_type s = ''unknown'') \<and> ''T-2'' \<notin> C \<and> ''T-2'' \<notin> X"
    using r cx d' u by (intro conjI) blast+
  show ?thesis
    by (rule exI [where x = C], rule exI [where x = X], rule exI [where x = m]) (rule cj)
qed

text \<open>
  The claim as the spec states it, for every list of identifiers, fails on a list that
  names an identifier twice when the tracker's answer changes between the two calls: the
  identifier is in both returned sets, and it is in the completed set although its entry
  in the status map has state type \<open>canceled\<close>.
\<close>

theorem check_issue_statuses_sets_overlap:
  "check_issue_statuses (Some ''arc_test_key'') tracker_changing [''T-1'', ''T-1''] =
     Inr ({''T-1''}, {''T-1''},
          [''T-1'' \<mapsto> \<lparr>status_identifier = ''T-1'', status_title = ''Test issue'',
             status_state_name = ''Canceled'', status_state_type = ''canceled'',
             status_completed_at = None\<rparr>])"
  by (simp add: check_issue_statuses_def tracker_changing_def answer_def get_issue_status_def
      get_or_def Let_def COMPLETED_STATE_TYPES_def CANCELLED_STATE_TYPES_def)

section \<open>Properties of the merge phase and the retry pass\<close>

lemma merge_step_merged:
  assumes "wr_status r = Some ''success''"
    and "mr_success (fst (merge_branch run_git (co_git st) (result_branch iid r)))"
  shows "merge_step run_git issue_lookup (iid, r) st =
     Inr (st\<lparr>co_merge_results := (co_merge_results st)(iid \<mapsto> True),
             co_completed := insert iid (co_completed st),
             co_progress_completed := insert iid (co_progress_completed st),
             co_tier_completed := insert iid (co_tier_completed st),
             co_git := delete_branch run_git
               (snd (merge_branch run_git (co_git st) (result_branch iid r))) (result_branch iid r)\<rparr>)"
proof -
  obtain mr g1 where "merge_branch run_git (co_git st) (result_branch iid r) = (mr, g1)"
    by (cases "merge_branch run_git (co_git st) (result_branch iid r)")
  with assms show ?thesis by (simp add: merge_step_def Let_def)
qed

lemma merge_step_conflict:
  assumes "wr_status r = Some ''success''"
    and "\<not> mr_success (fst (merge_branch run_git (co_git st) (result_branch iid r)))"
    and "mr_conflict (fst (merge_branch run_git (co_git st) (result_branch iid r)))"
    and "issue_lookup iid = Some issue"
  shows "merge_step run_git issue_lookup (iid, r) st =
     Inr (st\<lparr>co_merge_results := (co_merge_results st)(iid \<mapsto> False),
             co_requeued_issues := insert iid (co_requeued_issues st),
             co_requeued := co_requeued st @ [issue],
             co_git := snd (merge_branch run_git (co_git st) (result_branch iid r))\<rparr>)"
proof -
  obtain mr g1 where "merge_branch run_git (co_git st) (result_branch iid r) = (mr, g1)"
    by (cases "merge_branch run_git (co_git st) (result_branch iid r)")
  with assms show ?thesis by (simp add: merge_step_def Let_def)
qed

lemma merge_step_merge_failed:
  assumes "wr_status r = Some ''success''"
    and "\<not> mr_success (fst (merge_branch run_git (co_git st) (result_branch iid r)))"
    and "\<not> mr_conflict (fst (merge_branch run_git (co_git st) (result_branch iid r)))"
  shows "merge_step run_git issue_lookup (iid, r) st =
     Inr (st\<lparr>co_merge_results := (co_merge_results st)(iid \<mapsto> False),
             co_failed_issues := insert iid (co_failed_issues st),
             co_tier_failed := insert iid (co_tier_failed st),
             co_git := snd (merge_branch run_git (co_git st) (result_branch iid r))\<rparr>)"
proof -
  obtain mr g1 where "merge_branch run_git (co_git st) (result_branch iid r) = (mr, g1)"
    by (cases "merge_branch run_git (co_git st) (result_branch iid r)")
  with assms show ?thesis by (simp add: merge_step_def Let_def)
qed

lemma merge_step_worker_failed:
  assumes "wr_status r \<noteq> Some ''success''"
  shows "merge_step run_git issue_lookup (iid, r) st =
     Inr (st\<lparr>co_failed_issues := insert iid (co_failed_issues st),
             co_tier_failed := insert iid (co_tier_failed st)\<rparr>)"
  using assms by (simp add: merge_step_def)

lemma merge_step_grows:
  assumes "merge_step run_git issue_lookup item st = Inr st'"
  shows "co_completed st \<subseteq> co_completed st' \<and>
     co_progress_completed st \<subseteq> co_progress_completed st' \<and>
     co_requeued_issues st \<subseteq> co_requeued_issues st' \<and>
     co_failed_issues st \<subseteq> co_failed_issues st' \<and>
     set (co_requeued st) \<subseteq> set (co_requeued st')"
proof -
  obtain iid r where item: "item = (iid, r)" by (cases item)
  show ?thesis
  proof (cases "wr_status r = Some ''success''")
    case False
    from assms show ?thesis
      unfolding item merge_step_worker_failed [OF False] by auto
  next
    case True
    let ?mr = "fst (merge_branch run_git (co_git st) (result_branch iid r))"
    show ?thesis
    proof (cases "mr_success ?mr")
      case s: True
      from assms show ?thesis
        unfolding item merge_step_merged [OF True s] by auto
    next
      case s: False
      show ?thesis
      proof (cases "mr_conflict ?mr")
        case c: False
        from assms show ?thesis
          unfolding item merge_step_merge_failed [OF True s c] by auto
      next
        case c: True
        show ?thesis
        proof (cases "issue_lookup iid")
          case None
          obtain mr g1 where "merge_branch run_git (co_git st) (result_branch iid r) = (mr, g1)"
            by (cases "merge_branch run_git (co_git st) (result_branch iid r)")
          with assms True s c None show ?thesis
            unfolding item by (simp add: merge_step_def Let_def)
        next
          case (Some issue)
          from assms show ?thesis
            unfolding item merge_step_conflict [where issue_lookup = issue_lookup and iid = iid, OF True s c Some] by auto
        qed
      qed
    qed
  qed
qed

lemma merge_phase_grows:
  "merge_phase run_git issue_lookup items st = Inr fin \<Longrightarrow>
     co_completed st \<subseteq> co_completed fin \<and>
     co_progress_completed st \<subseteq> co_progress_completed fin \<and>
     co_requeued_issues st \<subseteq> co_requeued_issues fin \<and>
     co_failed_issues st \<subseteq> co_failed_issues fin \<and>
     set (co_requeued st) \<subseteq> set (co_requeued fin)"
proof (induction items arbitrary: st)
  case Nil
  then show ?case by simp
next
  case (Cons item rest)
  from Cons.prems obtain s1 where
    s1: "merge_step run_git issue_lookup item st = Inr s1"
        "merge_phase run_git issue_lookup rest s1 = Inr fin"
    by (cases "merge_step run_git issue_lookup item st") (simp_all add: then_do_def)
  from merge_step_grows [OF s1(1)] Cons.IH [OF s1(2)] show ?case
    by (meson subset_trans)
qed

lemma merge_phase_split:
  "merge_phase run_git issue_lookup (pre @ item # post) st = Inr fin \<Longrightarrow>
     \<exists>s1 s2. merge_phase run_git issue_lookup pre st = Inr s1 \<and>
       merge_step run_git issue_lookup item s1 = Inr s2 \<and>
       merge_phase run_git issue_lookup post s2 = Inr fin"
proof (induction pre arbitrary: st)
  case Nil
  then show ?case
    by (cases "merge_step run_git issue_lookup item st") (simp_all add: then_do_def)
next
  case (Cons a pre)
  from Cons.prems obtain s0 where
    s0: "merge_step run_git issue_lookup a st = Inr s0"
        "merge_phase run_git issue_lookup (pre @ item # post) s0 = Inr fin"
    by (cases "merge_step run_git issue_lookup a st") (simp_all add: then_do_def)
  from Cons.IH [OF s0(2)] s0(1) show ?case
    by (simp add: then_do_def)
qed

lemma retry_step_retried:
  assumes "issue ''id'' = Some iid"
    and "wr_status (retry_result run_worker (co_git st) issue iid) = Some ''success''"
    and "mr_success (fst (merge_branch run_git (snd (run_worker (co_git st) issue))
            (result_branch iid (retry_result run_worker (co_git st) issue iid))))"
  shows "retry_step run_git run_worker issue st =
     Inr (st\<lparr>co_completed := insert iid (co_completed st),
             co_progress_completed := insert iid (co_progress_completed st),
             co_requeued_issues := co_requeued_issues st - {iid},
             co_git := delete_branch run_git
               (snd (merge_branch run_git (snd (run_worker (co_git st) issue))
                  (result_branch iid (retry_result run_worker (co_git st) issue iid))))
               (result_branch iid (retry_result run_worker (co_git st) issue iid))\<rparr>)"
proof -
  obtain mr g1 where "merge_branch run_git (snd (run_worker (co_git st) issue))
      (result_branch iid (retry_result run_worker (co_git st) issue iid)) = (mr, g1)"
    by (cases "merge_branch run_git (snd (run_worker (co_git st) issue))
      (result_branch iid (retry_result run_worker (co_git st) issue iid))")
  with assms show ?thesis by (simp add: retry_step_def Let_def)
qed

lemma retry_step_keeps:
  assumes "retry_step run_git run_worker issue st = Inr st'"
  shows "co_completed st \<subseteq> co_completed st' \<and>
     co_progress_completed st \<subseteq> co_progress_completed st' \<and>
     co_requeued_issues st' \<subseteq> co_requeued_issues st \<and>
     co_failed_issues st' = co_failed_issues st"
  using assms
  by (auto simp: retry_step_def Let_def split: option.splits prod.splits if_splits)

lemma retry_pass_keeps:
  "retry_pass run_git run_worker issues st = Inr fin \<Longrightarrow>
     co_completed st \<subseteq> co_completed fin \<and>
     co_progress_completed st \<subseteq> co_progress_completed fin \<and>
     co_requeued_issues fin \<subseteq> co_requeued_issues st \<and>
     co_failed_issues fin = co_failed_issues st"
proof (induction issues arbitrary: st)
  case Nil
  then show ?case by simp
next
  case (Cons issue rest)
  from Cons.prems obtain s1 where
    s1: "retry_step run_git run_worker issue st = Inr s1"
        "retry_pass run_git run_worker rest s1 = Inr fin"
    by (cases "retry_step run_git run_worker issue st") (simp_all add: then_do_def)
  from retry_step_keeps [OF s1(1)] Cons.IH [OF s1(2)] show ?case
    by (metis subset_trans)
qed

lemma retry_pass_split:
  "retry_pass run_git run_worker (pre @ issue # post) st = Inr fin \<Longrightarrow>
     \<exists>s1 s2. retry_pass run_git run_worker pre st = Inr s1 \<and>
       retry_step run_git run_worker issue s1 = Inr s2 \<and>
       retry_pass run_git run_worker post s2 = Inr fin"
proof (induction pre arbitrary: st)
  case Nil
  then show ?case
    by (cases "retry_step run_git run_worker issue st") (simp_all add: then_do_def)
next
  case (Cons a pre)
  from Cons.prems obtain s0 where
    s0: "retry_step run_git run_worker a st = Inr s0"
        "retry_pass run_git run_worker (pre @ issue # post) s0 = Inr fin"
    by (cases "retry_step run_git run_worker a st") (simp_all add: then_do_def)
  from Cons.IH [OF s0(2)] s0(1) show ?case
    by (simp add: then_do_def)
qed

lemma merge_branch_run_git:
  assumes "run_git g [''merge'', ''--no-ff'', ''-m'', ''Merge parallel branch: '' @ branch, branch] =
      ((rc, out, err), g1)"
  shows "merge_branch run_git g branch =
     (if rc = 0 then
        (\<lparr>mr_branch = branch, mr_success = True, mr_conflict = False, mr_error = ''''\<rparr>, g1)
      else if str_contains ''conflict'' (lower err) \<or> str_contains ''conflict'' (lower out) then
        (\<lparr>mr_branch = branch, mr_success = False, mr_conflict = True, mr_error = ''''\<rparr>,
         snd (run_git g1 [''merge'', ''--abort'']))
      else
        (\<lparr>mr_branch = branch, mr_success = False, mr_conflict = False, mr_error = err\<rparr>,
         snd (run_git g1 [''merge'', ''--abort''])))"
  using assms by (simp add: merge_branch_def)

lemma result_branch_get:
  "result_branch iid r = (case wr_branch r of None \<Rightarrow> ''parallel/'' @ iid | Some b \<Rightarrow> b)"
  by (cases "wr_branch r") (simp_all add: result_branch_def get_or_def make_branch_name_def)

text \<open>
  The merge phase and the retry pass, with the branch and the git commands written out.
  For an entry of the results whose worker reported success, the branch is the entry's
  \<open>branch\<close> (or \<open>parallel/\<close> and the identifier when it has none) and \<open>git merge --no-ff\<close>
  is run on it: when that exits with 0 the issue is added to completed and
  \<open>git branch -d\<close> is run on the branch; when it fails with a conflict in its output the
  issue is added to the re-queued set and appended to the list kept for the retry pass;
  on any other failure it is added to failed. An entry whose worker did not report success
  adds the issue to failed and leaves the repository as it was (no git command is run).
  What one step adds is still there when the phase ends. In the retry pass, an issue whose
  retry worker reports success and whose merge then exits with 0 is in completed and not
  in the re-queued set when the pass ends.
\<close>

theorem merge_phase_outcomes:
  assumes "branch = (case wr_branch r of None \<Rightarrow> ''parallel/'' @ iid | Some b \<Rightarrow> b)"
    and "run_git (co_git st) [''merge'', ''--no-ff'', ''-m'', ''Merge parallel branch: '' @ branch, branch] =
      ((rc, out, err), g1)"
  shows
  "(wr_status r = Some ''success'' \<and> rc = 0 \<longrightarrow>
      merge_step run_git issue_lookup (iid, r) st =
        Inr (st\<lparr>co_merge_results := (co_merge_results st)(iid \<mapsto> True),
                co_completed := insert iid (co_completed st),
                co_progress_completed := insert iid (co_progress_completed st),
                co_tier_completed := insert iid (co_tier_completed st),
                co_git := snd (run_git g1 [''branch'', ''-d'', branch])\<rparr>)) \<and>
   (wr_status r = Some ''success'' \<and> rc \<noteq> 0 \<and>
      (str_contains ''conflict'' (lower err) \<or> str_contains ''conflict'' (lower out)) \<and>
      issue_lookup iid = Some issue \<longrightarrow>
      merge_step run_git issue_lookup (iid, r) st =
        Inr (st\<lparr>co_merge_results := (co_merge_results st)(iid \<mapsto> False),
                co_requeued_issues := insert iid (co_requeued_issues st),
                co_requeued := co_requeued st @ [issue],
                co_git := snd (run_git g1 [''merge'', ''--abort''])\<rparr>)) \<and>
   (wr_status r = Some ''success'' \<and> rc \<noteq> 0 \<and>
      \<not> str_contains ''conflict'' (lower err) \<and> \<not> str_contains ''conflict'' (lower out) \<longrightarrow>
      merge_step run_git issue_lookup (iid, r) st =
        Inr (st\<lparr>co_merge_results := (co_merge_results st)(iid \<mapsto> False),
                co_failed_issues := insert iid (co_failed_issues st),
                co_tier_failed := insert iid (co_tier_failed st),
                co_git := snd (run_git g1 [''merge'', ''--abort''])\<rparr>)) \<and>
   (wr_status r \<noteq> Some ''success'' \<longrightarrow>
      merge_step run_git issue_lookup (iid, r) st =
        Inr (st\<lparr>co_failed_issues := insert iid (co_failed_issues st),
                co_tier_failed := insert iid (co_tier_failed st)\<rparr>)) \<and>
   (merge_phase run_git issue_lookup (pre @ (iid, r) # post) st0 = Inr fin \<longrightarrow>
      (\<exists>s1 s2. merge_phase run_git issue_lookup pre st0 = Inr s1 \<and>
         merge_step run_git issue_lookup (iid, r) s1 = Inr s2 \<and>
         co_completed s2 \<subseteq> co_completed fin \<and>
         co_requeued_issues s2 \<subseteq> co_requeued_issues fin \<and>
         co_failed_issues s2 \<subseteq> co_failed_issues fin \<and>
         set (co_requeued s2) \<subseteq> set (co_requeued fin))) \<and>
   (retry_pass run_git run_worker (before @ issue # after) st0 = Inr fin' \<and>
      issue ''id'' = Some iid \<longrightarrow>
      (\<exists>s1. retry_pass run_git run_worker before st0 = Inr s1 \<and>
         (\<forall>res rb. fst (run_worker (co_git s1) issue) iid = Some res \<and>
            wr_status res = Some ''success'' \<and>
            rb = (case wr_branch res of None \<Rightarrow> ''parallel/'' @ iid | Some b \<Rightarrow> b) \<and>
            fst (fst (run_git (snd (run_worker (co_git s1) issue))
              [''merge'', ''--no-ff'', ''-m'', ''Merge parallel branch: '' @ rb, rb])) = 0 \<longrightarrow>
            iid \<in> co_completed fin' \<and> iid \<in> co_progress_completed fin' \<and>
            iid \<notin> co_requeued_issues fin')))"
proof -
  have rb: "result_branch iid r = branch"
    by (simp add: result_branch_get assms(1))
  note mb = merge_branch_run_git [where run_git = run_git and g = "co_git st" and branch = branch
      and rc = rc and out = out and err = err and ?g1.0 = g1, OF assms(2)]
  have 1: "wr_status r = Some ''success'' \<and> rc = 0 \<longrightarrow>
      merge_step run_git issue_lookup (iid, r) st =
        Inr (st\<lparr>co_merge_results := (co_merge_results st)(iid \<mapsto> True),
                co_completed := insert iid (co_completed st),
                co_progress_completed := insert iid (co_progress_completed st),
                co_tier_completed := insert iid (co_tier_completed st),
                co_git := snd (run_git g1 [''branch'', ''-d'', branch])\<rparr>)"
    by (simp add: merge_step_def rb mb delete_branch_def Let_def)
  have 2: "wr_status r = Some ''success'' \<and> rc \<noteq> 0 \<and>
      (str_contains ''conflict'' (lower err) \<or> str_contains ''conflict'' (lower out)) \<and>
      issue_lookup iid = Some issue \<longrightarrow>
      merge_step run_git issue_lookup (iid, r) st =
        Inr (st\<lparr>co_merge_results := (co_merge_results st)(iid \<mapsto> False),
                co_requeued_issues := insert iid (co_requeued_issues st),
                co_requeued := co_requeued st @ [issue],
                co_git := snd (run_git g1 [''merge'', ''--abort''])\<rparr>)"
    by (simp add: merge_step_def rb mb Let_def)
  have 3: "wr_status r = Some ''success'' \<and> rc \<noteq> 0 \<and>
      \<not> str_contains ''conflict'' (lower err) \<and> \<not> str_contains ''conflict'' (lower out) \<longrightarrow>
      merge_step run_git issue_lookup (iid, r) st =
        Inr (st\<lparr>co_merge_results := (co_merge_results st)(iid \<mapsto> False),
                co_failed_issues := insert iid (co_failed_issues st),
                co_tier_failed := insert iid (co_tier_failed st),
                co_git := snd (run_git g1 [''merge'', ''--abort''])\<rparr>)"
    by (simp add: merge_step_def rb mb Let_def)
  have 4: "wr_status r \<noteq> Some ''success'' \<longrightarrow>
      merge_step run_git issue_lookup (iid, r) st =
        Inr (st\<lparr>co_failed_issues := insert iid (co_failed_issues st),
                co_tier_failed := insert iid (co_tier_failed st)\<rparr>)"
    using merge_step_worker_failed [of r run_git issue_lookup iid st] by blast
  have 5: "merge_phase run_git issue_lookup (pre @ (iid, r) # post) st0 = Inr fin \<longrightarrow>
      (\<exists>s1 s2. merge_phase run_git issue_lookup pre st0 = Inr s1 \<and>
         merge_step run_git issue_lookup (iid, r) s1 = Inr s2 \<and>
         co_completed s2 \<subseteq> co_completed fin \<and>
         co_requeued_issues s2 \<subseteq> co_requeued_issues fin \<and>
         co_failed_issues s2 \<subseteq> co_failed_issues fin \<and>
         set (co_requeued s2) \<subseteq> set (co_requeued fin))"
  proof
    assume "merge_phase run_git issue_lookup (pre @ (iid, r) # post) st0 = Inr fin"
    from merge_phase_split [OF this] obtain s1 s2 where
      s: "merge_phase run_git issue_lookup pre st0 = Inr s1"
         "merge_step run_git issue_lookup (iid, r) s1 = Inr s2"
         "merge_phase run_git issue_lookup post s2 = Inr fin"
      by blast
    from merge_phase_grows [OF s(3)] s(1,2)
    have "merge_phase run_git issue_lookup pre st0 = Inr s1 \<and>
         merge_step run_git issue_lookup (iid, r) s1 = Inr s2 \<and>
         co_completed s2 \<subseteq> co_completed fin \<and>
         co_requeued_issues s2 \<subseteq> co_requeued_issues fin \<and>
         co_failed_issues s2 \<subseteq> co_failed_issues fin \<and>
         set (co_requeued s2) \<subseteq> set (co_requeued fin)"
      by simp
    then show "\<exists>s1 s2. merge_phase run_git issue_lookup pre st0 = Inr s1 \<and>
         merge_step run_git issue_lookup (iid, r) s1 = Inr s2 \<and>
         co_completed s2 \<subseteq> co_completed fin \<and>
         co_requeued_issues s2 \<subseteq> co_requeued_issues fin \<and>
         co_failed_issues s2 \<subseteq> co_failed_issues fin \<and>
         set (co_requeued s2) \<subseteq> set (co_requeued fin)"
      by (intro exI [where x = s1] exI [where x = s2])
  qed
  have 6: "retry_pass run_git run_worker (before @ issue # after) st0 = Inr fin' \<and>
      issue ''id'' = Some iid \<longrightarrow>
      (\<exists>s1. retry_pass run_git run_worker before st0 = Inr s1 \<and>
         (\<forall>res rb. fst (run_worker (co_git s1) issue) iid = Some res \<and>
            wr_status res = Some ''success'' \<and>
            rb = (case wr_branch res of None \<Rightarrow> ''parallel/'' @ iid | Some b \<Rightarrow> b) \<and>
            fst (fst (run_git (snd (run_worker (co_git s1) issue))
              [''merge'', ''--no-ff'', ''-m'', ''Merge parallel branch: '' @ rb, rb])) = 0 \<longrightarrow>
            iid \<in> co_completed fin' \<and> iid \<in> co_progress_completed fin' \<and>
            iid \<notin> co_requeued_issues fin'))"
  proof
    assume a: "retry_pass run_git run_worker (before @ issue # after) st0 = Inr fin' \<and>
      issue ''id'' = Some iid"
    from a retry_pass_split [of run_git run_worker before issue after st0 fin'] obtain s1 s2 where
      s: "retry_pass run_git run_worker before st0 = Inr s1"
         "retry_step run_git run_worker issue s1 = Inr s2"
         "retry_pass run_git run_worker after s2 = Inr fin'"
      by blast
    have "iid \<in> co_completed fin' \<and> iid \<in> co_progress_completed fin' \<and>
          iid \<notin> co_requeued_issues fin'"
      if h: "fst (run_worker (co_git s1) issue) iid = Some res \<and>
            wr_status res = Some ''success'' \<and>
            rb = (case wr_branch res of None \<Rightarrow> ''parallel/'' @ iid | Some b \<Rightarrow> b) \<and>
            fst (fst (run_git (snd (run_worker (co_git s1) issue))
              [''merge'', ''--no-ff'', ''-m'', ''Merge parallel branch: '' @ rb, rb])) = 0"
      for res rb
    proof -
      from a have i: "issue ''id'' = Some iid" by simp
      from h have rr: "retry_result run_worker (co_git s1) issue iid = res"
        by (simp add: retry_result_def get_or_def)
      from h have w: "wr_status (retry_result run_worker (co_git s1) issue iid) = Some ''success''"
        by (simp add: rr)
      from h have b: "result_branch iid (retry_result run_worker (co_git s1) issue iid) = rb"
        by (simp add: rr result_branch_get)
      obtain rc' out' err' g1' where
        c: "run_git (snd (run_worker (co_git s1) issue))
              [''merge'', ''--no-ff'', ''-m'', ''Merge parallel branch: '' @ rb, rb] = ((rc', out', err'), g1')"
        by (metis prod.exhaust)
      from h have "fst (fst (run_git (snd (run_worker (co_git s1) issue))
              [''merge'', ''--no-ff'', ''-m'', ''Merge parallel branch: '' @ rb, rb])) = 0"
        by (elim conjE)
      then have "rc' = 0" unfolding c by simp
      with merge_branch_run_git [where run_git = run_git
          and g = "snd (run_worker (co_git s1) issue)" and branch = rb
          and rc = rc' and out = out' and err = err' and ?g1.0 = g1', OF c]
      have m: "mr_success (fst (merge_branch run_git (snd (run_worker (co_git s1) issue))
            (result_branch iid (retry_result run_worker (co_git s1) issue iid))))"
        by (simp add: b)
      from s(2) have "iid \<in> co_completed s2 \<and> iid \<in> co_progress_completed s2 \<and>
          iid \<notin> co_requeued_issues s2"
        unfolding retry_step_retried [where issue = issue and iid = iid, OF i w m] by auto
      with retry_pass_keeps [OF s(3)] show ?thesis by blast
    qed
    then have "\<forall>res rb. fst (run_worker (co_git s1) issue) iid = Some res \<and>
            wr_status res = Some ''success'' \<and>
            rb = (case wr_branch res of None \<Rightarrow> ''parallel/'' @ iid | Some b \<Rightarrow> b) \<and>
            fst (fst (run_git (snd (run_worker (co_git s1) issue))
              [''merge'', ''--no-ff'', ''-m'', ''Merge parallel branch: '' @ rb, rb])) = 0 \<longrightarrow>
            iid \<in> co_completed fin' \<and> iid \<in> co_progress_completed fin' \<and>
            iid \<notin> co_requeued_issues fin'"
      by blast
    with s(1) have cj: "retry_pass run_git run_worker before st0 = Inr s1 \<and>
         (\<forall>res rb. fst (run_worker (co_git s1) issue) iid = Some res \<and>
            wr_status res = Some ''success'' \<and>
            rb = (case wr_branch res of None \<Rightarrow> ''parallel/'' @ iid | Some b \<Rightarrow> b) \<and>
            fst (fst (run_git (snd (run_worker (co_git s1) issue))
              [''merge'', ''--no-ff'', ''-m'', ''Merge parallel branch: '' @ rb, rb])) = 0 \<longrightarrow>
            iid \<in> co_completed fin' \<and> iid \<in> co_progress_completed fin' \<and>
            iid \<notin> co_requeued_issues fin')"
      by (rule conjI)
    show "\<exists>s1. retry_pass run_git run_worker before st0 = Inr s1 \<and>
         (\<forall>res rb. fst (run_worker (co_git s1) issue) iid = Some res \<and>
            wr_status res = Some ''success'' \<and>
            rb = (case wr_branch res of None \<Rightarrow> ''parallel/'' @ iid | Some b \<Rightarrow> b) \<and>
            fst (fst (run_git (snd (run_worker (co_git s1) issue))
              [''merge'', ''--no-ff'', ''-m'', ''Merge parallel branch: '' @ rb, rb])) = 0 \<longrightarrow>
            iid \<in> co_completed fin' \<and> iid \<in> co_progress_completed fin' \<and>
            iid \<notin> co_requeued_issues fin')"
      by (rule exI [where x = s1]) (rule cj)
  qed
  from 1 2 3 4 5 6 show ?thesis by (intro conjI)
qed

lemma merge_TX_conflict:
  "conflict_once_git []
     [''merge'', ''--no-ff'', ''-m'', ''Merge parallel branch: '' @ ''parallel/T-X'', ''parallel/T-X''] =
   ((1, ''CONFLICT (content): Merge conflict in README.md'', ''''),
    [[''merge'', ''--no-ff'', ''-m'', ''Merge parallel branch: parallel/T-X'', ''parallel/T-X'']])"
  by (simp add: conflict_once_git_def)

lemma conflict_in_stdout:
  "str_contains ''conflict'' (lower ''CONFLICT (content): Merge conflict in README.md'')"
  by (simp add: lower_def lower_char_def ascii_uppercase_def ascii_lowercase_def)

lemma retry_TX:
  "retry_pass conflict_once_git worker_succeeds [issue_TX] coord_conflicted = Inr coord_retried"
  by (simp add: retry_step_def retry_result_def worker_succeeds_def issue_TX_def get_or_def
      result_branch_def make_branch_name_def merge_branch_def delete_branch_def
      conflict_once_git_def coord_conflicted_def coord_retried_def coord_start_def
      then_do_def Let_def)

theorem merge_phase_outcomes_witness:
  "merge_step conflict_once_git [''T-X'' \<mapsto> issue_TX] (''T-X'', result_TX) coord_start =
     Inr coord_conflicted \<and>
   ''T-X'' \<in> co_requeued_issues coord_conflicted \<and>
   co_requeued coord_conflicted = [issue_TX] \<and>
   retry_pass conflict_once_git worker_succeeds [issue_TX] coord_conflicted = Inr coord_retried \<and>
   ''T-X'' \<in> co_completed coord_retried \<and>
   ''T-X'' \<notin> co_requeued_issues coord_retried \<and>
   last (co_git coord_retried) = [''branch'', ''-d'', ''parallel/T-X'']"
proof -
  have b: "''parallel/T-X'' = (case wr_branch result_TX of None \<Rightarrow> ''parallel/'' @ ''T-X'' | Some b \<Rightarrow> b)"
    by (simp add: result_TX_def)
  have m: "conflict_once_git (co_git coord_start)
      [''merge'', ''--no-ff'', ''-m'', ''Merge parallel branch: '' @ ''parallel/T-X'', ''parallel/T-X''] =
    ((1, ''CONFLICT (content): Merge conflict in README.md'', ''''),
     [[''merge'', ''--no-ff'', ''-m'', ''Merge parallel branch: parallel/T-X'', ''parallel/T-X'']])"
    using merge_TX_conflict by (simp add: coord_start_def)
  note t = merge_phase_outcomes [where r = result_TX and run_git = conflict_once_git
      and st = coord_start and iid = "''T-X''" and issue_lookup = "[''T-X'' \<mapsto> issue_TX]"
      and issue = issue_TX and run_worker = worker_succeeds and pre = "[]" and post = "[]"
      and fin = coord_start and before = "[]" and after = "[]" and fin' = coord_retried
      and st0 = coord_conflicted, OF b m]
  from t [THEN conjunct2, THEN conjunct1] have
    "wr_status result_TX = Some ''success'' \<and> (1::int) \<noteq> 0 \<and>
      (str_contains ''conflict'' (lower '''') \<or>
       str_contains ''conflict'' (lower ''CONFLICT (content): Merge conflict in README.md'')) \<and>
      [''T-X'' \<mapsto> issue_TX] ''T-X'' = Some issue_TX \<longrightarrow>
      merge_step conflict_once_git [''T-X'' \<mapsto> issue_TX] (''T-X'', result_TX) coord_start =
        Inr (coord_start\<lparr>co_merge_results := (co_merge_results coord_start)(''T-X'' \<mapsto> False),
                co_requeued_issues := insert ''T-X'' (co_requeued_issues coord_start),
                co_requeued := co_requeued coord_start @ [issue_TX],
                co_git := snd (conflict_once_git
                  [[''merge'', ''--no-ff'', ''-m'', ''Merge parallel branch: parallel/T-X'', ''parallel/T-X'']]
                  [''merge'', ''--abort''])\<rparr>)"
    .
  moreover have "wr_status result_TX = Some ''success'' \<and> (1::int) \<noteq> 0 \<and>
      (str_contains ''conflict'' (lower '''') \<or>
       str_contains ''conflict'' (lower ''CONFLICT (content): Merge conflict in README.md'')) \<and>
      [''T-X'' \<mapsto> issue_TX] ''T-X'' = Some issue_TX"
    using conflict_in_stdout by (simp add: result_TX_def)
  ultimately have "merge_step conflict_once_git [''T-X'' \<mapsto> issue_TX] (''T-X'', result_TX) coord_start =
        Inr (coord_start\<lparr>co_merge_results := (co_merge_results coord_start)(''T-X'' \<mapsto> False),
                co_requeued_issues := insert ''T-X'' (co_requeued_issues coord_start),
                co_requeued := co_requeued coord_start @ [issue_TX],
                co_git := snd (conflict_once_git
                  [[''merge'', ''--no-ff'', ''-m'', ''Merge parallel branch: parallel/T-X'', ''parallel/T-X'']]
                  [''merge'', ''--abort''])\<rparr>)"
    by (rule mp)
  then have 1: "merge_step conflict_once_git [''T-X'' \<mapsto> issue_TX] (''T-X'', result_TX) coord_start =
     Inr coord_conflicted"
    by (simp add: conflict_once_git_def coord_conflicted_def coord_start_def)
  have 2: "''T-X'' \<in> co_requeued_issues coord_conflicted"
    by (simp add: coord_conflicted_def)
  have 3: "co_requeued coord_conflicted = [issue_TX]"
    by (simp add: coord_conflicted_def)
  have r: "retry_pass conflict_once_git worker_succeeds ([] @ issue_TX # []) coord_conflicted =
      Inr coord_retried \<and> issue_TX ''id'' = Some ''T-X''"
    using retry_TX by (simp add: issue_TX_def)
  from t [THEN conjunct2, THEN conjunct2, THEN conjunct2, THEN conjunct2, THEN conjunct2] have
    "retry_pass conflict_once_git worker_succeeds ([] @ issue_TX # []) coord_conflicted = Inr coord_retried \<and>
      issue_TX ''id'' = Some ''T-X'' \<longrightarrow>
      (\<exists>s1. retry_pass conflict_once_git worker_succeeds [] coord_conflicted = Inr s1 \<and>
         (\<forall>res rb. fst (worker_succeeds (co_git s1) issue_TX) ''T-X'' = Some res \<and>
            wr_status res = Some ''success'' \<and>
            rb = (case wr_branch res of None \<Rightarrow> ''parallel/'' @ ''T-X'' | Some b \<Rightarrow> b) \<and>
            fst (fst (conflict_once_git (snd (worker_succeeds (co_git s1) issue_TX))
              [''merge'', ''--no-ff'', ''-m'', ''Merge parallel branch: '' @ rb, rb])) = 0 \<longrightarrow>
            ''T-X'' \<in> co_completed coord_retried \<and> ''T-X'' \<in> co_progress_completed coord_retried \<and>
            ''T-X'' \<notin> co_requeued_issues coord_retried))"
    .
  with r obtain s1 where
    s1: "retry_pass conflict_once_git worker_succeeds [] coord_conflicted = Inr s1" and
    imp: "\<forall>res rb. fst (worker_succeeds (co_git s1) issue_TX) ''T-X'' = Some res \<and>
            wr_status res = Some ''success'' \<and>
            rb = (case wr_branch res of None \<Rightarrow> ''parallel/'' @ ''T-X'' | Some b \<Rightarrow> b) \<and>
            fst (fst (conflict_once_git (snd (worker_succeeds (co_git s1) issue_TX))
              [''merge'', ''--no-ff'', ''-m'', ''Merge parallel branch: '' @ rb, rb])) = 0 \<longrightarrow>
            ''T-X'' \<in> co_completed coord_retried \<and> ''T-X'' \<in> co_progress_completed coord_retried \<and>
            ''T-X'' \<notin> co_requeued_issues coord_retried"
    by blast
  from s1 have e: "s1 = coord_conflicted" by simp
  have "fst (worker_succeeds (co_git s1) issue_TX) ''T-X'' = Some result_TX \<and>
            wr_status result_TX = Some ''success'' \<and>
            ''parallel/T-X'' = (case wr_branch result_TX of None \<Rightarrow> ''parallel/'' @ ''T-X'' | Some b \<Rightarrow> b) \<and>
            fst (fst (conflict_once_git (snd (worker_succeeds (co_git s1) issue_TX))
              [''merge'', ''--no-ff'', ''-m'', ''Merge parallel branch: '' @ ''parallel/T-X'', ''parallel/T-X''])) = 0"
    unfolding e
    by (simp add: worker_succeeds_def issue_TX_def result_TX_def make_branch_name_def
        coord_conflicted_def conflict_once_git_def)
  with imp have 4: "''T-X'' \<in> co_completed coord_retried \<and> ''T-X'' \<in> co_progress_completed coord_retried \<and>
          ''T-X'' \<notin> co_requeued_issues coord_retried"
    by blast
  have 5: "last (co_git coord_retried) = [''branch'', ''-d'', ''parallel/T-X'']"
    by (simp add: coord_retried_def)
  from 1 2 3 retry_TX 4 5 show ?thesis by (intro conjI) simp_all
qed


section \<open>Properties of the results of a tier\<close>

lemma setup_wave_filter:
  "setup_wave create_ok ws res = Inr (spawned, res') \<Longrightarrow>
     spawned = filter (\<lambda>(worker_index, issue). create_ok worker_index issue) ws"
proof (induction ws arbitrary: res spawned res')
  case Nil
  then show ?case by simp
next
  case (Cons a ws)
  obtain worker_index issue where a: "a = (worker_index, issue)" by (cases a)
  from Cons.prems obtain issue_id where i: "issue ''id'' = Some issue_id"
    unfolding a by (cases "issue ''id''") simp_all
  show ?case
  proof (cases "create_ok worker_index issue")
    case False
    with Cons.prems i have "setup_wave create_ok ws
        (dict_set issue_id (error_result issue_id ''Failed to create worktree'') res) = Inr (spawned, res')"
      unfolding a by simp
    from Cons.IH [OF this] False show ?thesis
      unfolding a by simp
  next
    case True
    with Cons.prems i obtain sp where
      sp: "setup_wave create_ok ws res = Inr (sp, res')" "spawned = (worker_index, issue) # sp"
      unfolding a
      by (cases "setup_wave create_ok ws res") (auto simp: then_do_def split: prod.splits)
    from Cons.IH [OF sp(1)] sp(2) True show ?thesis
      unfolding a by simp
  qed
qed

text \<open>The workers that the first loop over a wave appends to \<open>spawn_tasks\<close> are those
  of \<open>spawn_tasks\<close> above: the workers of the wave whose worktree is created.\<close>

lemma setup_wave_spawned:
  "setup_wave create_ok (wave_workers w) res = Inr (spawned, res') \<Longrightarrow>
     spawned = spawn_tasks create_ok w"
  by (simp add: spawn_tasks_def setup_wave_filter)

lemma waves_AB: "tier_waves [issue_TA, issue_TB] 2 = Inr [(0, [issue_TA, issue_TB])]"
  by (simp add: tier_waves_def wave_starts_def range_from_step range_from_stop)

lemma wave_workers_two: "wave_workers (0, [a, b]) = [(0, a), (Suc 0, b)]"
  by (simp add: wave_workers_def)

lemma results_first_fails:
  "run_tier_parallel workers_first_fails [issue_TA, issue_TB] 2 =
     Inr [(''T-A'', error_result ''T-A'' ''No result file produced'')]"
  unfolding run_tier_parallel_def waves_AB
  by (simp add: run_wave_def wave_workers_two then_do_def workers_first_fails_def
      issue_TA_def issue_TB_def Let_def)

lemma results_all_created:
  "run_tier_parallel workers_all_created [issue_TA, issue_TB] 2 =
     Inr [(''T-A'', result_TA), (''T-B'', result_TB)]"
  unfolding run_tier_parallel_def waves_AB
  by (simp add: run_wave_def wave_workers_two then_do_def workers_all_created_def
      issue_TA_def issue_TB_def Let_def)

text \<open>
  C6 on a wave in which a worktree cannot be created. The tier \<open>T-A\<close>, \<open>T-B\<close> runs as one
  wave of two workers; the worktree of \<open>T-A\<close> cannot be created, the worker of \<open>T-B\<close> runs
  and its result file reports success. The results of the tier then have one entry only:
  \<open>T-A\<close> with the error \<open>No result file produced\<close> (the result of the worker of \<open>T-B\<close> is
  zipped with \<open>T-A\<close>, the first issue of the wave, and the result file of \<open>T-A\<close> is the one
  that is loaded). So the merge phase adds \<open>T-A\<close> to failed and does nothing for \<open>T-B\<close>:
  no git command is run, and \<open>T-B\<close> is neither completed nor re-queued nor failed, although
  its worker reported success. When every worktree is created, the results have an entry
  for each issue and both branches are merged and deleted.
\<close>

theorem run_tier_parallel_drops_result:
  "run_tier_parallel workers_first_fails [issue_TA, issue_TB] 2 =
     Inr [(''T-A'', error_result ''T-A'' ''No result file produced'')] \<and>
   load_worker_result workers_first_fails ''T-B'' = Some result_TB \<and>
   wr_status result_TB = Some ''success'' \<and>
   then_do (run_tier_parallel workers_first_fails [issue_TA, issue_TB] 2)
     (\<lambda>results. merge_phase logging_git lookup_AB results coord_start) =
     Inr (coord_start\<lparr>co_failed_issues := {''T-A''}, co_tier_failed := {''T-A''}\<rparr>) \<and>
   ''T-B'' \<notin> co_completed (coord_start\<lparr>co_failed_issues := {''T-A''}, co_tier_failed := {''T-A''}\<rparr>) \<and>
   ''T-B'' \<notin> co_requeued_issues (coord_start\<lparr>co_failed_issues := {''T-A''}, co_tier_failed := {''T-A''}\<rparr>) \<and>
   ''T-B'' \<notin> co_failed_issues (coord_start\<lparr>co_failed_issues := {''T-A''}, co_tier_failed := {''T-A''}\<rparr>) \<and>
   co_git (coord_start\<lparr>co_failed_issues := {''T-A''}, co_tier_failed := {''T-A''}\<rparr>) = [] \<and>
   then_do (run_tier_parallel workers_all_created [issue_TA, issue_TB] 2)
     (\<lambda>results. merge_phase logging_git lookup_AB results coord_start) =
     Inr (coord_start\<lparr>co_merge_results := [''T-A'' \<mapsto> True, ''T-B'' \<mapsto> True],
            co_completed := {''T-A'', ''T-B''},
            co_progress_completed := {''T-A'', ''T-B''},
            co_tier_completed := {''T-A'', ''T-B''},
            co_git := [[''merge'', ''--no-ff'', ''-m'', ''Merge parallel branch: parallel/T-A'', ''parallel/T-A''],
                       [''branch'', ''-d'', ''parallel/T-A''],
                       [''merge'', ''--no-ff'', ''-m'', ''Merge parallel branch: parallel/T-B'', ''parallel/T-B''],
                       [''branch'', ''-d'', ''parallel/T-B'']]\<rparr>)"
proof -
  have 1: "load_worker_result workers_first_fails ''T-B'' = Some result_TB"
    by (simp add: workers_first_fails_def)
  have 2: "wr_status result_TB = Some ''success''"
    by (simp add: result_TB_def)
  have 3: "then_do (run_tier_parallel workers_first_fails [issue_TA, issue_TB] 2)
     (\<lambda>results. merge_phase logging_git lookup_AB results coord_start) =
     Inr (coord_start\<lparr>co_failed_issues := {''T-A''}, co_tier_failed := {''T-A''}\<rparr>)"
    by (simp add: results_first_fails then_do_def merge_step_def error_result_def coord_start_def)
  have 4: "''T-B'' \<notin> co_completed (coord_start\<lparr>co_failed_issues := {''T-A''}, co_tier_failed := {''T-A''}\<rparr>)"
    "''T-B'' \<notin> co_requeued_issues (coord_start\<lparr>co_failed_issues := {''T-A''}, co_tier_failed := {''T-A''}\<rparr>)"
    "''T-B'' \<notin> co_failed_issues (coord_start\<lparr>co_failed_issues := {''T-A''}, co_tier_failed := {''T-A''}\<rparr>)"
    "co_git (coord_start\<lparr>co_failed_issues := {''T-A''}, co_tier_failed := {''T-A''}\<rparr>) = []"
    by (simp_all add: coord_start_def)
  have 5: "then_do (run_tier_parallel workers_all_created [issue_TA, issue_TB] 2)
     (\<lambda>results. merge_phase logging_git lookup_AB results coord_start) =
     Inr (coord_start\<lparr>co_merge_results := [''T-A'' \<mapsto> True, ''T-B'' \<mapsto> True],
            co_completed := {''T-A'', ''T-B''},
            co_progress_completed := {''T-A'', ''T-B''},
            co_tier_completed := {''T-A'', ''T-B''},
            co_git := [[''merge'', ''--no-ff'', ''-m'', ''Merge parallel branch: parallel/T-A'', ''parallel/T-A''],
                       [''branch'', ''-d'', ''parallel/T-A''],
                       [''merge'', ''--no-ff'', ''-m'', ''Merge parallel branch: parallel/T-B'', ''parallel/T-B''],
                       [''branch'', ''-d'', ''parallel/T-B'']]\<rparr>)"
    by (simp add: results_all_created then_do_def merge_step_def merge_branch_def delete_branch_def
        result_branch_def get_or_def result_TA_def result_TB_def logging_git_def coord_start_def
        Let_def insert_commute)
  from results_first_fails 1 2 3 4 5 show ?thesis by (intro conjI)
qed

end
